theory Spec2Isabelle
  imports Main
begin

section \<open>Data model (defines.h, TypeParser.h)\<close>

text \<open>
  The \<open>VariableDeclaration\<close> struct of defines.h. The \<open>size_t\<close> fields are natural
  numbers; the code targets a 32-bit ABI (\<open>kWordSize_ = 4\<close>, \<open>sizeof(int) = 4\<close>), and where
  a conversion wraps around (a negative \<open>int\<close> or \<open>long\<close> stored into a \<open>size_t\<close>) the
  wrap is written out with \<open>size_t_of_int\<close>.
\<close>

record VariableDeclaration =
  data_type :: string
  var_name :: string
  array_size :: nat
  is_pointer :: bool
  var_size :: nat

datatype TokenTypes =
    kUnresolvedToken
  | kStructKeyword | kUnionKeyword | kEnumKeyword | kTypedefKeyword
  | kBasicDataType | kAbstractType | kComplexType | kQualifier
  | kStructName | kUnionName | kEnumName

text \<open>
  The mutable members of class \<open>TypeParser\<close>: the visited-file map, the size map, the
  three definition maps and the constant map. \<open>basic_types_\<close>, \<open>qualifiers_\<close> and
  \<open>keywords_\<close> are filled once by \<open>Initialize\<close> and never written again, so they are
  constants below.
\<close>

record TypeParser =
  header_files :: "string \<rightharpoonup> bool"
  type_sizes :: "string \<rightharpoonup> nat"
  struct_defs :: "string \<rightharpoonup> VariableDeclaration list"
  union_defs :: "string \<rightharpoonup> VariableDeclaration list"
  enum_defs :: "string \<rightharpoonup> (string \<times> int) list"
  const_defs :: "string \<rightharpoonup> int"

definition kAlignment :: nat where
  "kAlignment = 4"

definition kWordSize :: nat where
  "kWordSize = 4"

definition kAnonymousTypePrefix :: string where
  "kAnonymousTypePrefix = ''_ANONYMOUS_''"

definition kPaddingFieldName :: string where
  "kPaddingFieldName = ''_padding_field_''"

definition size_t_bits :: nat where
  "size_t_bits = 32"

definition size_t_of_int :: "int \<Rightarrow> nat" where
  "size_t_of_int i = nat (i mod 2 ^ size_t_bits)"

text \<open>
  What ends a call other than a return: a failed \<open>assert\<close>, the conversion to \<open>size_t\<close>
  of a \<open>double\<close> that no \<open>size_t\<close> holds, an index past the end of the token vector,
  \<open>++last_value\<close> at \<open>INT_MAX\<close>, more nested calls than the model's budget, or an
  anonymous type for which every candidate name is taken.
\<close>

datatype abort =
  AssertFailed | CastOutOfRange | IndexOutOfRange | SignedOverflow | DepthExceeded | NoFreshName

text \<open>\<open>a + b\<close> on \<open>size_t\<close>: the sum wraps around.\<close>

definition size_t_add :: "nat \<Rightarrow> nat \<Rightarrow> nat" where
  "size_t_add a b = (a + b) mod 2 ^ size_t_bits"

definition basic_types :: "string list" where
  "basic_types =
     [''char'', ''short'', ''int'', ''size_t'', ''ssize_t'', ''long'', ''float'', ''double'',
      ''void'', ''bool'', ''__int64'', ''__WCHAR_T_TYPE__'', ''__SIZE_T_TYPE__'',
      ''__PTRDIFF_T_TYPE__'']"

text \<open>
  \<open>Initialize\<close>: every basic type gets the word size, then five entries are overwritten.
\<close>

definition Initialize :: TypeParser where
  "Initialize =
     \<lparr>header_files = Map.empty,
      type_sizes = (map_of (map (\<lambda>t. (t, kWordSize)) basic_types))
        (''void'' \<mapsto> 0, ''char'' \<mapsto> 1, ''short'' \<mapsto> 2, ''bool'' \<mapsto> 1,
         ''__WCHAR_T_TYPE__'' \<mapsto> 1),
      struct_defs = Map.empty, union_defs = Map.empty, enum_defs = Map.empty,
      const_defs = Map.empty\<rparr>"

text \<open>A non-array, non-pointer member: the shape of the declarations used as concrete inputs.\<close>

definition member :: "string \<Rightarrow> string \<Rightarrow> nat \<Rightarrow> VariableDeclaration" where
  "member ty name sz =
     \<lparr>data_type = ty, var_name = name, array_size = 0, is_pointer = False, var_size = sz\<rparr>"

section \<open>Layout calculator (TypeParser.cpp)\<close>

text \<open>
  \<open>static_cast<size_t>(ceil(x * 1.0 / kAlignment_) * kAlignment_)\<close> for a \<open>size_t x\<close>: the
  double arithmetic is exact below \<open>2^53\<close>, so the double is the integer ceiling. Its
  conversion to \<open>size_t\<close> is defined only when the value is below \<open>2^32\<close>; for an \<open>x\<close> within
  3 of \<open>SIZE_MAX\<close> the rounded value is \<open>2^32\<close> and the conversion is out of range: \<open>None\<close>.
\<close>

definition ceil_to_alignment :: "nat \<Rightarrow> nat option" where
  "ceil_to_alignment x =
     (let r = ((x + kAlignment - 1) div kAlignment) * kAlignment
      in if r < 2 ^ size_t_bits then Some r else None)"

definition MakePadField :: "nat \<Rightarrow> VariableDeclaration" where
  "MakePadField sz =
     \<lparr>data_type = ''char'', var_name = kPaddingFieldName, array_size = 0,
      is_pointer = False, var_size = sz\<rparr>"

text \<open>
  One pass of the \<open>while\<close> loop of \<open>PadStructMembers\<close> at member \<open>m\<close>, with the locals
  \<open>total\<close> (here \<open>tot\<close>) and \<open>last_size\<close>; \<open>total += ...\<close> is an addition on \<open>size_t\<close>.
  \<open>PadContinue out tot' last'\<close>: the loop goes on; \<open>out\<close> is what the list holds in place
  of \<open>m\<close> afterwards (\<open>m\<close> itself, with a padding field inserted before or after it).
  \<open>PadReturn0\<close>: one of the three \<open>return 0\<close> statements. \<open>PadAssertFailed\<close>:
  \<open>assert (1 == size)\<close> fails. \<open>PadCastFailed\<close>: the rounded \<open>last_size\<close> is no \<open>size_t\<close>.
\<close>

datatype pad_step =
    PadContinue "VariableDeclaration list" nat nat
  | PadReturn0
  | PadAssertFailed
  | PadCastFailed

definition PadStructMembers_step :: "nat \<Rightarrow> nat \<Rightarrow> VariableDeclaration \<Rightarrow> pad_step" where
  "PadStructMembers_step tot last_size m =
     (let sz = var_size m in
      if sz mod kAlignment = 0 then
        (if last_size > 0 then
           (case ceil_to_alignment last_size of
              None \<Rightarrow> PadCastFailed
            | Some align_size \<Rightarrow>
                (let pad_size = align_size - last_size
                 in PadContinue [MakePadField pad_size, m] (size_t_add tot align_size) 0))
         else PadContinue [m] (size_t_add tot sz) 0)
      else if sz \<ge> kAlignment then PadReturn0
      else if last_size = 0 then PadContinue [m] tot sz
      else if (sz + last_size) mod kAlignment = 0 then
        PadContinue [m] (size_t_add tot (sz + last_size)) 0
      else if last_size = 1 then
        (if sz = 1 then PadContinue [m] tot (last_size + 1)
         else if sz = 2 then PadContinue [MakePadField 1, m] (size_t_add tot kAlignment) 0
         else PadReturn0)
      else if last_size = 2 then
        (if sz = 1 then PadContinue [m, MakePadField 1] (size_t_add tot kAlignment) 0
         else PadAssertFailed)
      else PadReturn0)"

datatype pad_exit = PadDone | PadError | PadAbort abort

text \<open>
  The loop from the iterator position on: the result is how the loop ended, the list from
  that position on as the loop leaves it, and the final \<open>total\<close> and \<open>last_size\<close>.
  On \<open>return 0\<close> the members not yet visited stay as they are, and the padding fields
  inserted so far stay in the list (it is modified in place).
\<close>

fun PadStructMembers_loop ::
  "nat \<Rightarrow> nat \<Rightarrow> VariableDeclaration list \<Rightarrow> pad_exit \<times> VariableDeclaration list \<times> nat \<times> nat"
where
  "PadStructMembers_loop tot last_size [] = (PadDone, [], tot, last_size)"
| "PadStructMembers_loop tot last_size (m # ms) =
     (case PadStructMembers_step tot last_size m of
        PadContinue out tot' last' \<Rightarrow>
          (case PadStructMembers_loop tot' last' ms of
             (e, ms', t, l) \<Rightarrow> (e, out @ ms', t, l))
      | PadReturn0 \<Rightarrow> (PadError, m # ms, tot, last_size)
      | PadAssertFailed \<Rightarrow> (PadAbort AssertFailed, m # ms, tot, last_size)
      | PadCastFailed \<Rightarrow> (PadAbort CastOutOfRange, m # ms, tot, last_size))"

text \<open>
  \<open>PadStructMembers\<close>: the members as modified and the returned size, or what stops the
  program.
\<close>

definition PadStructMembers :: "VariableDeclaration list \<Rightarrow> abort + (VariableDeclaration list \<times> nat)" where
  "PadStructMembers members =
     (case PadStructMembers_loop 0 0 members of
        (PadDone, ms', tot, _) \<Rightarrow> Inr (ms', tot)
      | (PadError, ms', _, _) \<Rightarrow> Inr (ms', 0)
      | (PadAbort e, _, _, _) \<Rightarrow> Inl e)"

text \<open>
  A specification predicate, not part of the source: while the loop runs from a pending run
  of \<open>last_size\<close> bytes over \<open>ms\<close>, some member whose size is a multiple of the alignment
  unit is reached while a run is pending (\<open>last_size > 0\<close>). The run after each member is
  the one the loop body computes.
\<close>

fun aligned_member_closes_run :: "nat \<Rightarrow> VariableDeclaration list \<Rightarrow> bool" where
  "aligned_member_closes_run last_size [] = False"
| "aligned_member_closes_run last_size (m # ms) =
     ((var_size m mod kAlignment = 0 \<and> last_size > 0)
      \<or> (case PadStructMembers_step 0 last_size m of
            PadContinue out tot' last' \<Rightarrow> aligned_member_closes_run last' ms
          | PadReturn0 \<Rightarrow> False
          | PadAssertFailed \<Rightarrow> False
          | PadCastFailed \<Rightarrow> False))"

text \<open>
  \<open>CalcUnionSize\<close>: the maximum is taken without arithmetic; the rounding is the cast above.
\<close>

definition CalcUnionSize :: "VariableDeclaration list \<Rightarrow> abort + nat" where
  "CalcUnionSize members =
     (let sz = fold (\<lambda>it sz. max sz (var_size it)) members 0
      in if sz mod kAlignment \<noteq> 0 then
           (case ceil_to_alignment sz of None \<Rightarrow> Inl CastOutOfRange | Some r \<Rightarrow> Inr r)
         else Inr sz)"

text \<open>
  \<open>StoreStructUnionDef\<close> takes \<open>members\<close> by reference: the result is the registry and the
  caller's list after the call.
\<close>

definition StoreStructUnionDef ::
  "bool \<Rightarrow> string \<Rightarrow> VariableDeclaration list \<Rightarrow> TypeParser
     \<Rightarrow> abort + (TypeParser \<times> VariableDeclaration list)"
where
  "StoreStructUnionDef is_struct type_name members p =
     (if is_struct then
        (case PadStructMembers members of
           Inl e \<Rightarrow> Inl e
         | Inr (members', sz) \<Rightarrow>
             Inr (p\<lparr>type_sizes := (type_sizes p)(type_name \<mapsto> sz),
                    struct_defs := (struct_defs p)(type_name \<mapsto> members')\<rparr>, members'))
      else
        (case CalcUnionSize members of
           Inl e \<Rightarrow> Inl e
         | Inr sz \<Rightarrow>
             Inr (p\<lparr>type_sizes := (type_sizes p)(type_name \<mapsto> sz),
                    union_defs := (union_defs p)(type_name \<mapsto> members)\<rparr>, members)))"

section \<open>C library and utility.h helpers\<close>

text \<open>
  \<open>isspace\<close> in the C locale: space, \<open>\t\<close>, \<open>\n\<close>, \<open>\v\<close>, \<open>\f\<close>, \<open>\r\<close>.
\<close>

definition isspace :: "char \<Rightarrow> bool" where
  "isspace c = (c \<in> set [CHR '' '', CHR 0x09, CHR 0x0A, CHR 0x0B, CHR 0x0C, CHR 0x0D])"

text \<open>
  \<open>long\<close> and \<open>int\<close> are both 32 bits wide on the ABI the code is written for.
\<close>

definition LONG_MAX :: int where
  "LONG_MAX = 2 ^ 31 - 1"

definition LONG_MIN :: int where
  "LONG_MIN = - (2 ^ 31)"

text \<open>The value of a digit or letter in \<open>strtol\<close>: \<open>0-9\<close>, then \<open>a-z\<close> and \<open>A-Z\<close> from 10 on.\<close>

definition digit_value :: "char \<Rightarrow> nat option" where
  "digit_value c =
     (let n = (of_char c :: nat) in
      if 48 \<le> n \<and> n \<le> 57 then Some (n - 48)
      else if 97 \<le> n \<and> n \<le> 122 then Some (n - 87)
      else if 65 \<le> n \<and> n \<le> 90 then Some (n - 55)
      else None)"

text \<open>The longest run of digits valid in \<open>base\<close>, accumulated from \<open>acc\<close>.\<close>

fun strtol_digits :: "nat \<Rightarrow> int \<Rightarrow> string \<Rightarrow> int" where
  "strtol_digits base acc [] = acc"
| "strtol_digits base acc (c # cs) =
     (case digit_value c of
        None \<Rightarrow> acc
      | Some d \<Rightarrow> if d < base then strtol_digits base (acc * int base + int d) cs else acc)"

definition is_digit_in :: "nat \<Rightarrow> char \<Rightarrow> bool" where
  "is_digit_in base c = (case digit_value c of None \<Rightarrow> False | Some d \<Rightarrow> d < base)"

text \<open>
  \<open>strtol(nptr, NULL, base)\<close> for \<open>base\<close> 0 or 16, the two bases the code uses: leading
  white space, an optional sign, an optional \<open>0x\<close>/\<open>0X\<close> (taken as a prefix only when a
  hexadecimal digit follows), for base 0 a leading \<open>0\<close> selecting octal, then the digits.
  No digits give 0; a value out of range gives \<open>LONG_MAX\<close> or \<open>LONG_MIN\<close>.
\<close>

definition strtol :: "string \<Rightarrow> nat \<Rightarrow> int" where
  "strtol nptr base =
     (let s = dropWhile isspace nptr;
          neg = (s \<noteq> [] \<and> hd s = CHR ''-'');
          s1 = (if s \<noteq> [] \<and> (hd s = CHR ''-'' \<or> hd s = CHR ''+'') then tl s else s);
          hex_prefix = ((base = 0 \<or> base = 16) \<and> length s1 \<ge> 3 \<and> hd s1 = CHR ''0''
                        \<and> (s1 ! 1 = CHR ''x'' \<or> s1 ! 1 = CHR ''X'') \<and> is_digit_in 16 (s1 ! 2));
          b = (if hex_prefix then 16
               else if base = 0 then (if s1 \<noteq> [] \<and> hd s1 = CHR ''0'' then 8 else 10)
               else base);
          s2 = (if hex_prefix then drop 2 s1 else s1);
          v = strtol_digits b 0 s2;
          r = (if neg then - v else v)
      in if r > LONG_MAX then LONG_MAX else if r < LONG_MIN then LONG_MIN else r)"

text \<open>
  The character of a decimal or (lower case) hexadecimal digit \<open>d < 16\<close>, and the decimal
  output of \<open>operator<<\<close> for an unsigned and for a signed integer.
\<close>

definition digit_char :: "nat \<Rightarrow> char" where
  "digit_char d = ''0123456789abcdef'' ! d"

fun dec_nat :: "nat \<Rightarrow> string" where
  "dec_nat n =
     (if n < 10 then [digit_char n]
      else dec_nat (n div 10) @ [digit_char (n mod 10)])"

declare dec_nat.simps [simp del]

text \<open>The digits of a non-negative \<open>int\<close>, and a signed integer with its sign.\<close>

function dec_pos :: "int \<Rightarrow> string" where
  "dec_pos i =
     (if i < 10 then [digit_char (nat i)]
      else dec_pos (i div 10) @ [digit_char (nat (i mod 10))])"
  by pat_completeness auto
termination
  by (relation "measure nat") auto

declare dec_pos.simps [simp del]

definition dec_int :: "int \<Rightarrow> string" where
  "dec_int i = (if i < 0 then CHR ''-'' # dec_pos (- i) else dec_pos i)"

text \<open>\<open>setw(w)\<close> with the default fill: spaces on the left up to width \<open>w\<close>.\<close>

definition setw :: "nat \<Rightarrow> string \<Rightarrow> string" where
  "setw w s = replicate (w - length s) CHR '' '' @ s"

text \<open>
  \<open>tohex(data)\<close> of utility.h with its default arguments (\<open>big_endian = false\<close>, lower
  case): \<open>0x\<close>, then the bytes from the last to the first, two digits each. For empty
  \<open>data\<close> the function executes \<open>return 0x00\<close>, which constructs a \<open>std::string\<close> from a
  null pointer: \<open>None\<close>.
\<close>

definition tohex :: "string \<Rightarrow> string option" where
  "tohex data =
     (if data = [] then None
      else Some (''0x'' @ concat (map (\<lambda>c. [digit_char (of_char c div 16), digit_char (of_char c mod 16)])
                                   (rev data))))"

section \<open>Token classification (TypeParser.cpp)\<close>

definition qualifiers :: "string list" where
  "qualifiers =
     [''static'', ''const'', ''signed'', ''unsigned'', ''far'', ''extern'',
      ''volatile'', ''auto'', ''register'', ''inline'', ''__attribute__'']"

definition keyword_types :: "(string \<times> TokenTypes) list" where
  "keyword_types =
     [(''struct'', kStructKeyword), (''union'', kUnionKeyword), (''enum'', kEnumKeyword),
      (''typedef'', kTypedefKeyword)]"

definition GetTokenType :: "TypeParser \<Rightarrow> string \<Rightarrow> TokenTypes" where
  "GetTokenType p token =
     (case map_of keyword_types token of
        Some t \<Rightarrow> t
      | None \<Rightarrow>
          if token \<in> set qualifiers then kQualifier
          else if token \<in> set basic_types then kBasicDataType
          else if struct_defs p token \<noteq> None then kStructName
          else if union_defs p token \<noteq> None then kUnionName
          else if enum_defs p token \<noteq> None then kEnumName
          else kUnresolvedToken)"

section \<open>Tokens (TypeParser.cpp)\<close>

definition EOL :: char where
  "EOL = CHR ''$''"

definition kSemicolon :: char where
  "kSemicolon = CHR '';''"

definition kAsterisk :: char where
  "kAsterisk = CHR ''*''"

definition kBlockStart :: char where
  "kBlockStart = CHR ''{''"

definition kBlockEnd :: char where
  "kBlockEnd = CHR ''}''"

definition kPoundSign :: char where
  "kPoundSign = CHR ''#''"

definition kComma :: char where
  "kComma = CHR '',''"

definition kEqual :: char where
  "kEqual = CHR ''=''"

definition kQuotation :: char where
  "kQuotation = CHR 0x22"

text \<open>
  \<open>kTokenDelimiters\<close>: blank, tab and the punctuation of the source's string literal (the
  single and the double quote are written by their codes).
\<close>

definition kTokenDelimiters :: string where
  "kTokenDelimiters =
     '' '' @ [CHR 0x09] @ ''#{[(<&|*>)]}?'' @ [CHR 0x27] @ '':'' @ [CHR 0x22] @ '',%!=/;+*$''"

text \<open>
  \<open>s.find_first_of(chars, pos)\<close>, and with a single character \<open>s.find(c, pos)\<close>: the first
  index from \<open>pos\<close> on that holds one of \<open>chars\<close>; \<open>None\<close> is \<open>string::npos\<close>.
\<close>

definition find_first_of :: "string \<Rightarrow> string \<Rightarrow> nat \<Rightarrow> nat option" where
  "find_first_of s chars pos =
     (let rest = drop pos s;
          n = length (takeWhile (\<lambda>c. c \<notin> set chars) rest)
      in if n < length rest then Some (pos + n) else None)"

definition IsIgnorable :: "string \<Rightarrow> bool" where
  "IsIgnorable token = (token = [] \<or> token \<in> set qualifiers)"

text \<open>
  The part of \<open>GetNextToken\<close> between the blank-skipping loop and the loop over ignorable
  tokens: the token that starts at \<open>start\<close> (a position inside \<open>src\<close>) and the position
  after it.
\<close>

definition scan_token :: "string \<Rightarrow> nat \<Rightarrow> string \<times> nat" where
  "scan_token src start =
     (case find_first_of src kTokenDelimiters start of
        None \<Rightarrow> (drop start src, length src)
      | Some ptk \<Rightarrow>
          if start = ptk then ([src ! ptk], ptk + 1)
          else (take (ptk - start) (drop start src), ptk))"

text \<open>The loop \<open>while (pos < src.length() && (isspace(src[pos]) || EOL == src[pos])) pos++\<close>.\<close>

definition skip_blanks :: "string \<Rightarrow> nat \<Rightarrow> nat" where
  "skip_blanks src pos = pos + length (takeWhile (\<lambda>c. isspace c \<or> c = EOL) (drop pos src))"

lemma find_first_of_bounds:
  "find_first_of s chars pos = Some k \<Longrightarrow> pos \<le> k \<and> k < length s"
  by (auto simp: find_first_of_def Let_def split: if_splits)

lemma scan_token_progress:
  assumes "start < length src" and "scan_token src start = (token, pos')"
  shows "start < pos' \<and> pos' \<le> length src \<and> token \<noteq> []"
  using assms find_first_of_bounds [of src kTokenDelimiters start]
  by (auto simp: scan_token_def split: option.splits if_splits)

lemma skip_blanks_ge: "pos \<le> skip_blanks src pos"
  by (simp add: skip_blanks_def)

text \<open>
  \<open>GetNextToken(src, pos, token, cross_line)\<close>: the returned flag, the new \<open>pos\<close> and the
  token. The loop over ignorable tokens calls \<open>GetNextToken\<close> again, on the local copy of
  \<open>src\<close> (cut at the end of the line when \<open>cross_line\<close> is false) and with the default
  \<open>cross_line = true\<close>.
\<close>

function GetNextToken :: "string \<Rightarrow> nat \<Rightarrow> bool \<Rightarrow> bool \<times> nat \<times> string" where
  "GetNextToken src pos cross_line =
     (let src1 = (if \<not> cross_line then
                    (case find_first_of src [EOL] pos of Some p \<Rightarrow> take p src | None \<Rightarrow> src)
                  else src);
          pos1 = skip_blanks src1 pos
      in if pos1 \<ge> length src1 then (False, pos1, [])
         else if fst (scan_token src1 pos1) \<noteq> [] \<and> IsIgnorable (fst (scan_token src1 pos1))
           then GetNextToken src1 (snd (scan_token src1 pos1)) True
         else (fst (scan_token src1 pos1) \<noteq> [], snd (scan_token src1 pos1), fst (scan_token src1 pos1)))"
  by pat_completeness auto
termination
proof (relation "measure (\<lambda>(src, pos, cross_line). length src - pos)", goal_cases)
  case 1
  show ?case by simp
next
  case (2 src pos cross_line src1 pos1)
  have len: "length src1 \<le> length src"
    using 2(1) by (auto split: option.splits)
  have "pos \<le> pos1"
    using 2(2) skip_blanks_ge by simp
  moreover have "pos1 < snd (scan_token src1 pos1)"
    using 2(3) scan_token_progress [of pos1 src1] by (cases "scan_token src1 pos1") auto
  moreover have "snd (scan_token src1 pos1) \<le> length src1"
    using 2(3) scan_token_progress [of pos1 src1] by (cases "scan_token src1 pos1") auto
  ultimately show ?case using len by simp
qed

declare GetNextToken.simps [simp del]

section \<open>Lines (TypeParser.cpp)\<close>

text \<open>
  Positions in \<open>src\<close> never exceed its length: each is set from the result of a search, to
  \<open>src.length()\<close>, or to one past a character that was found. \<open>substr\<close> is \<open>take\<close> of \<open>drop\<close>.
\<close>

definition trim :: "string \<Rightarrow> string" where
  "trim str = dropWhile isspace (rev (dropWhile isspace (rev str)))"

text \<open>\<open>GetRestLine\<close>: the returned flag, the new \<open>pos\<close> and \<open>line\<close>.\<close>

definition GetRestLine :: "string \<Rightarrow> nat \<Rightarrow> bool \<times> nat \<times> string" where
  "GetRestLine src pos =
     (if pos < length src \<and> src ! pos = EOL then (False, pos, [])
      else
        (case find_first_of src [EOL] pos of
           Some p \<Rightarrow> (True, p, take (p - pos) (drop pos src))
         | None \<Rightarrow> (True, length src, drop pos src)))"

text \<open>
  \<open>GetNextLine\<close>: the two assertions abort; \<open>trim(line)\<close> in the second one trims \<open>line\<close>
  itself, which is passed by reference.
\<close>

definition GetNextLine :: "string \<Rightarrow> nat \<Rightarrow> abort + (bool \<times> nat \<times> string)" where
  "GetNextLine src pos =
     (case find_first_of src [EOL] pos of
        None \<Rightarrow> Inr (False, length src, [])
      | Some start \<Rightarrow>
          (case find_first_of src [EOL] (start + 1) of
             None \<Rightarrow>
               (if trim (drop (start + 1) src) = [] then Inl AssertFailed
                else Inr (True, length src, trim (drop (start + 1) src)))
           | Some e \<Rightarrow>
               (if e = start + 1 then Inl AssertFailed
                else if trim (take (e - (start + 1)) (drop (start + 1) src)) = [] then Inl AssertFailed
                else Inr (True, e, trim (take (e - (start + 1)) (drop (start + 1) src))))))"

text \<open>
  \<open>SkipCurrentLine\<close>: the new \<open>pos\<close>. The \<open>line\<close> it also computes is used for log messages
  only.
\<close>

definition SkipCurrentLine :: "string \<Rightarrow> nat \<Rightarrow> nat" where
  "SkipCurrentLine src pos =
     (if pos \<ge> length src then pos
      else
        (case find_first_of src [EOL] pos of
           None \<Rightarrow> length src
         | Some e \<Rightarrow> if e = pos then pos + 1 else e + 1))"

section \<open>Declarations (TypeParser.cpp)\<close>

lemma GetNextToken_progress:
  "GetNextToken src pos cross_line = (True, pos', token)
     \<Longrightarrow> pos < pos' \<and> pos' \<le> length src \<and> token \<noteq> []"
proof (induction src pos cross_line rule: GetNextToken.induct)
  case (1 src pos cross_line)
  define src1 where "src1 =
    (if \<not> cross_line then
       (case find_first_of src [EOL] pos of Some p \<Rightarrow> take p src | None \<Rightarrow> src)
     else src)"
  define pos1 where "pos1 = skip_blanks src1 pos"
  have len: "length src1 \<le> length src"
    by (auto simp: src1_def split: option.splits)
  have ge: "pos \<le> pos1"
    by (simp add: pos1_def skip_blanks_ge)
  have inb: "pos1 < length src1"
    using "1.prems" by (subst (asm) GetNextToken.simps) (auto simp: Let_def src1_def pos1_def split: if_splits)
  obtain tok p2 where scan: "scan_token src1 pos1 = (tok, p2)"
    by (cases "scan_token src1 pos1")
  from scan_token_progress [OF inb scan] have prog: "pos1 < p2" "p2 \<le> length src1" "tok \<noteq> []"
    by auto
  show ?case
  proof (cases "IsIgnorable tok")
    case True
    with "1.prems" inb scan prog have rec: "GetNextToken src1 p2 True = (True, pos', token)"
      by (subst (asm) GetNextToken.simps) (simp add: Let_def src1_def [symmetric] pos1_def [symmetric])
    have "p2 < pos' \<and> pos' \<le> length src1 \<and> token \<noteq> []"
      using "1.IH" [OF src1_def pos1_def _ _ ] inb scan prog True rec
      by (simp add: src1_def [symmetric] pos1_def [symmetric])
    with ge prog len show ?thesis by simp
  next
    case False
    with "1.prems" inb scan prog have "pos' = p2" "token = tok"
      by (subst (asm) GetNextToken.simps, simp add: Let_def src1_def [symmetric] pos1_def [symmetric])+
    with ge prog len show ?thesis by simp
  qed
qed

text \<open>The loop of \<open>SplitLineIntoTokens\<close> with its local \<open>start\<close>.\<close>

function tokens_from :: "string \<Rightarrow> nat \<Rightarrow> string list" where
  "tokens_from line start =
     (case GetNextToken line start True of
        (True, pos, token) \<Rightarrow> token # tokens_from line pos
      | (False, pos, token) \<Rightarrow> [])"
  by pat_completeness auto
termination
proof (relation "measure (\<lambda>(line, start). length line - start)", goal_cases)
  case 1
  show ?case by simp
next
  case (2 line start x1 x2 pos token)
  then have "GetNextToken line start True = (True, pos, token)" by simp
  from GetNextToken_progress [OF this] show ?case by auto
qed

declare tokens_from.simps [simp del]

definition SplitLineIntoTokens :: "string \<Rightarrow> string list" where
  "SplitLineIntoTokens line = tokens_from line 0"

text \<open>
  \<open>IsNumericToken\<close>: \<open>Some number\<close> for \<open>true\<close>, \<open>None\<close> for \<open>false\<close>.
\<close>

definition IsNumericToken :: "TypeParser \<Rightarrow> string \<Rightarrow> int option" where
  "IsNumericToken p token =
     (if token = [] then None
      else (let number = strtol token 0 in
            if number = 0 then const_defs p token else Some number))"

text \<open>
  \<open>GetTypeSize\<close> returns an \<open>int\<close>: the recorded size, \<open>sizeof(int)\<close> for an enum that has no
  entry in the size map, and -1 for an unknown type.
\<close>

definition int_of_size_t :: "nat \<Rightarrow> int" where
  "int_of_size_t n = (if n < 2 ^ 31 then int n else int n - 2 ^ 32)"

definition GetTypeSize :: "TypeParser \<Rightarrow> string \<Rightarrow> int" where
  "GetTypeSize p t =
     (case type_sizes p t of
        Some sz \<Rightarrow> int_of_size_t sz
      | None \<Rightarrow> if enum_defs p t \<noteq> None then 4 else - 1)"

text \<open>
  \<open>ParseDeclaration(line, decl)\<close>: the returned flag and \<open>decl\<close> as the call leaves it.
\<close>

definition ParseDeclaration ::
  "TypeParser \<Rightarrow> string \<Rightarrow> VariableDeclaration \<Rightarrow> abort + (bool \<times> VariableDeclaration)"
where
  "ParseDeclaration p line decl =
     (if line = [] then Inl AssertFailed
      else if last line \<noteq> kSemicolon then Inr (False, decl)
      else
        (let tokens = SplitLineIntoTokens line in
         if length tokens < 3 then Inl AssertFailed
         else
           (let decl1 = decl\<lparr>data_type := tokens ! 0, is_pointer := False\<rparr>;
                len = size_t_of_int (GetTypeSize p (data_type decl1))
            in if len = 0 then Inr (False, decl1)
               else
                 (let ptr = (hd (tokens ! 1) = kAsterisk);
                      index = (if ptr then 2 else 1);
                      len1 = (if ptr then kWordSize else len);
                      decl2 = (if ptr then decl1\<lparr>is_pointer := True, var_name := tokens ! 2\<rparr>
                               else decl1\<lparr>var_name := tokens ! 1\<rparr>)
                  in if index + 1 \<ge> length tokens then Inl IndexOutOfRange
                     else if hd (tokens ! (index + 1)) = CHR ''['' then
                       (if index + 2 \<ge> length tokens then Inl IndexOutOfRange
                        else
                          (case IsNumericToken p (tokens ! (index + 2)) of
                             Some number \<Rightarrow>
                               Inr (True, decl2\<lparr>array_size := size_t_of_int number,
                                                var_size := size_t_of_int (int len1 * int (size_t_of_int number))\<rparr>)
                           | None \<Rightarrow> Inr (False, decl2)))
                     else Inr (True, decl2\<lparr>array_size := 0, var_size := len1\<rparr>)))))"

section \<open>Preprocessor directives (TypeParser.cpp)\<close>

text \<open>\<open>std::map::insert\<close>: an existing entry for the key is kept.\<close>

definition map_insert :: "('k \<rightharpoonup> 'v) \<Rightarrow> 'k \<Rightarrow> 'v \<Rightarrow> ('k \<rightharpoonup> 'v)" where
  "map_insert m k v = (case m k of None \<Rightarrow> m(k \<mapsto> v) | Some _ \<Rightarrow> m)"

text \<open>
  \<open>ParsePreProcDirective(src, pos)\<close>: the new \<open>pos\<close> and the registry. The call
  \<open>ParseFile(token)\<close> for an \<open>#include "..."\<close> is the argument \<open>parse_file\<close>, so that
  \<open>ParseFile\<close> below can hand itself in. The three calls of \<open>GetNextToken\<close> inside
  \<open>assert\<close> abort when they return false.
\<close>

definition ParsePreProcDirective ::
  "(string \<Rightarrow> TypeParser \<Rightarrow> abort + TypeParser) \<Rightarrow> string \<Rightarrow> nat \<Rightarrow> TypeParser
     \<Rightarrow> abort + (nat \<times> TypeParser)"
where
  "ParsePreProcDirective parse_file src pos p =
     (case GetNextToken src pos True of
        (ok, pos1, token) \<Rightarrow>
          if token = ''include'' then
            (case GetNextToken src pos1 False of
               (False, pos2, token2) \<Rightarrow> Inl AssertFailed
             | (True, pos2, token2) \<Rightarrow>
                 if last token2 = kQuotation then
                   (case GetNextToken src pos2 False of
                      (False, pos3, file) \<Rightarrow> Inl AssertFailed
                    | (True, pos3, file) \<Rightarrow>
                        (case parse_file file p of
                           Inl e \<Rightarrow> Inl e
                         | Inr p' \<Rightarrow> Inr (SkipCurrentLine src pos3, p')))
                 else Inr (SkipCurrentLine src pos2, p))
          else if token = ''define'' then
            (case GetNextToken src pos1 False of
               (False, pos2, last_token) \<Rightarrow> Inl AssertFailed
             | (True, pos2, last_token) \<Rightarrow>
                 (case GetNextToken src pos2 False of
                    (ok3, pos3, token3) \<Rightarrow>
                      (case (if ok3 then IsNumericToken p token3 else None) of
                         Some number \<Rightarrow>
                           Inr (pos3, p\<lparr>const_defs := map_insert (const_defs p) last_token number\<rparr>)
                       | None \<Rightarrow> Inr (SkipCurrentLine src pos3, p))))
          else Inr (SkipCurrentLine src pos1, p))"

section \<open>Enum definitions (TypeParser.cpp)\<close>

definition INT_MAX :: int where
  "INT_MAX = 2 ^ 31 - 1"

text \<open>
  \<open>ParseEnumDeclaration(line, last_value, decl, is_last_member)\<close>: the returned flag and
  the three reference arguments as the call leaves them. \<open>++last_value\<close> at \<open>INT_MAX\<close> is a
  signed overflow; \<open>static_cast<int>(number)\<close> keeps the value, \<open>long\<close> and \<open>int\<close> having the
  same width.
\<close>

definition ParseEnumDeclaration ::
  "TypeParser \<Rightarrow> string \<Rightarrow> int \<Rightarrow> string \<times> int \<Rightarrow> abort + (bool \<times> int \<times> (string \<times> int) \<times> bool)"
where
  "ParseEnumDeclaration p line last_value decl =
     (let tokens = SplitLineIntoTokens line in
      if length tokens = 1 then
        (if last_value = INT_MAX then Inl SignedOverflow
         else Inr (True, last_value + 1, (tokens ! 0, last_value + 1), True))
      else if length tokens = 2 then
        (if hd (tokens ! 1) \<noteq> kComma then Inl AssertFailed
         else if last_value = INT_MAX then Inl SignedOverflow
         else Inr (True, last_value + 1, (tokens ! 0, last_value + 1), False))
      else if length tokens = 3 then
        (if hd (tokens ! 1) \<noteq> kEqual then Inl AssertFailed
         else
           (case IsNumericToken p (tokens ! 2) of
              None \<Rightarrow> Inr (False, last_value, decl, False)
            | Some number \<Rightarrow> Inr (True, number, (tokens ! 0, number), True)))
      else if length tokens = 4 then
        (if \<not> (hd (tokens ! 1) = kEqual \<and> hd (tokens ! 3) = kComma) then Inl AssertFailed
         else
           (case IsNumericToken p (tokens ! 2) of
              None \<Rightarrow> Inr (False, last_value, decl, False)
            | Some number \<Rightarrow> Inr (True, number, (tokens ! 0, number), False)))
      else Inr (False, last_value, decl, False))"

lemma GetRestLine_ge:
  "pos \<le> length src \<Longrightarrow> GetRestLine src pos = (ok, pos', line) \<Longrightarrow> pos \<le> pos'"
  using find_first_of_bounds [of src "[EOL]" pos]
  by (auto simp: GetRestLine_def split: if_splits option.splits)

text \<open>
  How the \<open>while\<close> loop of \<open>ParseEnum\<close> over the members ends: at the token \<open>}\<close>, at the end
  of \<open>src\<close> (the loop condition fails), or with \<open>return false\<close>; each with \<open>pos\<close>.
\<close>

datatype enum_loop =
    EnumBlockEnd nat "(string \<times> int) list"
  | EnumSrcEnd nat "(string \<times> int) list"
  | EnumFailed nat

text \<open>
  The loop up to the block end, with the locals \<open>last_value\<close>, \<open>is_last_member\<close>, \<open>member\<close>
  (here \<open>memb\<close>) and \<open>members\<close>.
\<close>

function ParseEnum_members ::
  "TypeParser \<Rightarrow> string \<Rightarrow> nat \<Rightarrow> int \<Rightarrow> bool \<Rightarrow> string \<times> int \<Rightarrow> (string \<times> int) list
     \<Rightarrow> abort + enum_loop"
where
  "ParseEnum_members p src pos last_value is_last_member memb members =
     (case GetNextToken src pos True of
        (False, pos1, token) \<Rightarrow> Inr (EnumSrcEnd pos1 members)
      | (True, pos1, token) \<Rightarrow>
          if hd token = kBlockEnd then Inr (EnumBlockEnd pos1 members)
          else if is_last_member then Inr (EnumFailed pos1)
          else
            (case ParseEnumDeclaration p (token @ '' '' @ snd (snd (GetRestLine src pos1)))
                    last_value memb of
               Inl e \<Rightarrow> Inl e
             | Inr (False, lv, m, il) \<Rightarrow> Inr (EnumFailed (fst (snd (GetRestLine src pos1))))
             | Inr (True, lv, m, il) \<Rightarrow>
                 ParseEnum_members p src (fst (snd (GetRestLine src pos1))) lv il m (members @ [m])))"
  by pat_completeness auto
termination
proof (relation "measure (\<lambda>(p, src, pos, rest). length src - pos)", goal_cases)
  case 1
  show ?case by simp
next
  case (2 p src pos last_value is_last_member memb members x1 x2 pos1 token)
  then have "GetNextToken src pos True = (True, pos1, token)" by simp
  from GetNextToken_progress [OF this] have "pos < pos1" "pos1 \<le> length src" by auto
  moreover from this have "pos1 \<le> fst (snd (GetRestLine src pos1))"
    using GetRestLine_ge [of pos1 src] by (cases "GetRestLine src pos1") auto
  ultimately show ?case by auto
qed

declare ParseEnum_members.simps [simp del]

text \<open>
  The line that \<open>ParseEnum\<close> and \<open>ParseStructUnion\<close> peek at:
  \<open>if (!GetRestLine(src, pos, line)) assert(GetNextLine(src, pos, line))\<close>.
\<close>

definition rest_or_next_line :: "string \<Rightarrow> nat \<Rightarrow> abort + (nat \<times> string)" where
  "rest_or_next_line src pos =
     (case GetRestLine src pos of
        (True, pos1, line) \<Rightarrow> Inr (pos1, line)
      | (False, pos1, line) \<Rightarrow>
          (case GetNextLine src pos1 of
             Inl e \<Rightarrow> Inl e
           | Inr (False, pos2, line2) \<Rightarrow> Inl AssertFailed
           | Inr (True, pos2, line2) \<Rightarrow> Inr (pos2, line2)))"

text \<open>
  The name for an anonymous type: \<open>kAnonymousTypePrefix + rands()\<close>, drawn again while the
  name is taken. \<open>rands()\<close> depends on the clock; \<open>suffixes\<close> are the strings its successive
  calls return.
\<close>

definition fresh_anonymous_name :: "string list \<Rightarrow> (string \<Rightarrow> bool) \<Rightarrow> abort + string" where
  "fresh_anonymous_name suffixes taken =
     (case find (\<lambda>n. \<not> taken n) (map (\<lambda>s. kAnonymousTypePrefix @ s) suffixes) of
        None \<Rightarrow> Inl NoFreshName
      | Some n \<Rightarrow> Inr n)"

definition store_enum :: "string \<Rightarrow> (string \<times> int) list \<Rightarrow> TypeParser \<Rightarrow> TypeParser" where
  "store_enum name members p =
     p\<lparr>enum_defs := (enum_defs p)(name \<mapsto> members), type_sizes := (type_sizes p)(name \<mapsto> 4)\<rparr>"

text \<open>
  The header of a definition, after the peeked line did not parse as a declaration: an
  optional type name and the token \<open>{\<close>. The result is the name (empty if there is none)
  and the position after \<open>{\<close>.
\<close>

definition ParseEnum_header :: "string \<Rightarrow> nat \<Rightarrow> abort + (string \<times> nat)" where
  "ParseEnum_header src pos =
     (case GetNextToken src pos True of
        (False, pos1, token) \<Rightarrow> Inl AssertFailed
      | (True, pos1, token) \<Rightarrow>
          if hd token \<noteq> CHR ''{'' then
            (case GetNextToken src pos1 True of
               (False, pos2, token2) \<Rightarrow> Inl AssertFailed
             | (True, pos2, token2) \<Rightarrow>
                 if hd token2 = kBlockStart then Inr (token, pos2) else Inl AssertFailed)
          else Inr ([], pos1))"

text \<open>
  The branch of the loop for the token \<open>}\<close>: what follows the block decides between a
  type definition (formats 1 and 2) and a variable declaration (formats 3 and 4).
\<close>

definition ParseEnum_block_end ::
  "string list \<Rightarrow> TypeParser \<Rightarrow> bool \<Rightarrow> string \<Rightarrow> nat \<Rightarrow> string \<Rightarrow> (string \<times> int) list
     \<Rightarrow> VariableDeclaration \<Rightarrow> abort + (bool \<times> TypeParser \<times> nat \<times> VariableDeclaration \<times> bool)"
where
  "ParseEnum_block_end suffixes p is_typedef src pos type_name members var_decl =
     (case GetNextToken src pos True of
        (False, pos1, token) \<Rightarrow> Inl AssertFailed
      | (True, pos1, token) \<Rightarrow>
          if is_typedef then
            (case GetNextToken src pos1 True of
               (False, pos2, next_token) \<Rightarrow> Inl AssertFailed
             | (True, pos2, next_token) \<Rightarrow>
                 if hd next_token \<noteq> kSemicolon then Inl AssertFailed
                 else
                   (let p1 = store_enum token members p;
                        p2 = (if type_name \<noteq> [] \<and> token \<noteq> type_name
                              then store_enum type_name members p1 else p1)
                    in Inr (True, p2, pos2, var_decl, False)))
          else if hd token = kSemicolon then
            (if type_name = [] then Inl AssertFailed
             else Inr (True, store_enum type_name members p, pos1, var_decl, False))
          else
            (case (if type_name = []
                   then fresh_anonymous_name suffixes (\<lambda>n. enum_defs p n \<noteq> None)
                   else Inr type_name) of
               Inl e \<Rightarrow> Inl e
             | Inr name \<Rightarrow>
                 (case rest_or_next_line src pos1 of
                    Inl e \<Rightarrow> Inl e
                  | Inr (pos2, line) \<Rightarrow>
                      (case ParseDeclaration (store_enum name members p)
                              (name @ '' '' @ token @ '' '' @ line) var_decl of
                         Inl e \<Rightarrow> Inl e
                       | Inr (ok, decl2) \<Rightarrow>
                           Inr (ok, store_enum name members p, pos2, decl2, True)))))"

text \<open>
  \<open>ParseEnum(is_typedef, src, pos, var_decl, is_decl)\<close>: the returned flag, the registry
  and the three reference arguments as the call leaves them. The loop starts with
  \<open>last_value = -1\<close>, \<open>is_last_member = false\<close> and no members.
\<close>

definition ParseEnum ::
  "string list \<Rightarrow> TypeParser \<Rightarrow> bool \<Rightarrow> string \<Rightarrow> nat \<Rightarrow> VariableDeclaration \<Rightarrow> bool
     \<Rightarrow> abort + (bool \<times> TypeParser \<times> nat \<times> VariableDeclaration \<times> bool)"
where
  "ParseEnum suffixes p is_typedef src pos var_decl is_decl =
     (if src = [] \<or> pos \<ge> length src then Inl AssertFailed
      else
        (case rest_or_next_line src pos of
           Inl e \<Rightarrow> Inl e
         | Inr (pos_line, line) \<Rightarrow>
             (case ParseDeclaration p line var_decl of
                Inl e \<Rightarrow> Inl e
              | Inr (True, decl1) \<Rightarrow> Inr (True, p, pos_line, decl1, True)
              | Inr (False, decl1) \<Rightarrow>
                  (case ParseEnum_header src pos of
                     Inl e \<Rightarrow> Inl e
                   | Inr (type_name, pos_body) \<Rightarrow>
                       (case ParseEnum_members p src pos_body (- 1) False ([], 0) [] of
                          Inl e \<Rightarrow> Inl e
                        | Inr (EnumSrcEnd pos3 members) \<Rightarrow> Inr (True, p, pos3, decl1, is_decl)
                        | Inr (EnumFailed pos3) \<Rightarrow> Inr (False, p, pos3, decl1, is_decl)
                        | Inr (EnumBlockEnd pos3 members) \<Rightarrow>
                            ParseEnum_block_end suffixes p is_typedef src pos3 type_name
                              members decl1)))))"

section \<open>Enum values as the specification words them\<close>







section \<open>Binary decoder (DataReader.cpp)\<close>

text \<open>
  The state of a \<open>DataReader\<close> after \<open>ReadData\<close>: the buffer (\<open>data_size_\<close> is its length),
  the read position \<open>data_ptr_\<close> as an offset from \<open>data_buffer_\<close>, and the text written to
  \<open>out_stream_\<close>. The reader's copy of the registry is passed beside it; the decoder only
  reads it. Logging (\<open>Error\<close>, \<open>Debug\<close>, \<open>cout\<close>) is not modelled.
\<close>

record DataReader =
  data_buffer :: string
  data_ptr :: nat
  out_stream :: string

text \<open>
  What is not a normal return: the recursion budget of the model is used up, a read of
  \<open>string(data_ptr_, len)\<close> leaves the buffer, or \<open>tohex\<close> is handed empty data.
\<close>

datatype fault = OutOfFuel | ReadPastBuffer | EmptyData

definition TAB_WIDTH :: nat where
  "TAB_WIDTH = 4"

text \<open>
  \<open>FORMAT_OUTPUT(indent_depth)\<close>: one space, set to width \<open>TAB_WIDTH * indent_depth\<close>.
\<close>

definition FORMAT_OUTPUT :: "nat \<Rightarrow> string" where
  "FORMAT_OUTPUT indent_depth = setw (TAB_WIDTH * indent_depth) '' ''"

definition endl :: string where
  "endl = [CHR 0x0A]"

text \<open>
  The \<open>for\<close> loop over the enum's pairs in \<open>PrintVarValue\<close>, with its \<open>break\<close>; \<open>enumVar\<close>
  starts as \<open>Unknown\<close>.
\<close>

fun enum_label_loop :: "int \<Rightarrow> (string \<times> int) list \<Rightarrow> string" where
  "enum_label_loop int_value [] = ''Unknown''"
| "enum_label_loop int_value (it # enums) =
     (if int_value = snd it then fst it else enum_label_loop int_value enums)"

definition PrintVarValue ::
  "TypeParser \<Rightarrow> VariableDeclaration \<Rightarrow> nat \<Rightarrow> bool \<Rightarrow> DataReader \<Rightarrow> fault + DataReader"
where
  "PrintVarValue p var_decl indent is_union r =
     (let len = (if data_type var_decl = ''char'' then 1 else var_size var_decl) in
      if data_ptr r + len > length (data_buffer r) then Inl ReadPastBuffer
      else
        (let data = take len (drop (data_ptr r) (data_buffer r)) in
         case tohex data of
           None \<Rightarrow> Inl EmptyData
         | Some hex_value \<Rightarrow>
             (let int_value = strtol hex_value 16;
                  line = setw 3 (dec_int int_value) @ '', '' @ hex_value;
                  extra =
                    (if \<not> is_union \<and> enum_defs p (data_type var_decl) \<noteq> None then
                       '', '' @ enum_label_loop int_value (the (enum_defs p (data_type var_decl)))
                     else if data_type var_decl = ''char'' \<and> int_value \<noteq> 0 then
                       '', '' @ [CHR 0x27] @ [char_of int_value] @ [CHR 0x27]
                     else [])
              in Inr (r\<lparr>out_stream := out_stream r @ line @ extra @ endl,
                        data_ptr := (if \<not> is_union then data_ptr r + len else data_ptr r)\<rparr>))))"

text \<open>
  \<open>sizeof(type_parser_.kAnonymousTypePrefix)\<close> is the size of a \<open>std::string\<close> object, not
  the length of the prefix: 4 with the reference-counted string of a 32-bit GCC.
\<close>

definition sizeof_string :: nat where
  "sizeof_string = 4"

text \<open>
  The mutually recursive \<open>PrepareTypeData\<close>, \<open>PrintMemberData\<close> and \<open>PrintVarData\<close>. The
  first argument bounds the nesting depth of \<open>PrepareTypeData\<close> (a struct that names itself
  as the type of a member, as \<open>struct A { struct A *next; }\<close> does, recurses for ever).
  \<open>PrintMemberData\<close> carries the local \<open>union_addr\<close>; \<open>PrintArrayElements\<close> is the \<open>for\<close>
  loop over the indices of an array member.
\<close>

function (sequential) PrepareTypeData ::
  "nat \<Rightarrow> TypeParser \<Rightarrow> string \<Rightarrow> nat \<Rightarrow> bool \<Rightarrow> DataReader \<Rightarrow> fault + DataReader"
and PrintMemberData ::
  "nat \<Rightarrow> TypeParser \<Rightarrow> nat \<Rightarrow> VariableDeclaration list \<Rightarrow> nat \<Rightarrow> bool \<Rightarrow> DataReader
     \<Rightarrow> fault + DataReader"
and PrintArrayElements ::
  "nat \<Rightarrow> TypeParser \<Rightarrow> VariableDeclaration \<Rightarrow> nat \<Rightarrow> nat list \<Rightarrow> DataReader \<Rightarrow> fault + DataReader"
and PrintVarData ::
  "nat \<Rightarrow> TypeParser \<Rightarrow> VariableDeclaration \<Rightarrow> nat \<Rightarrow> bool \<Rightarrow> DataReader \<Rightarrow> fault + DataReader"
where
  "PrepareTypeData 0 p type_name indent is_union r = Inl OutOfFuel"
| "PrepareTypeData (Suc n) p type_name indent is_union r =
     (case (if is_union \<and> union_defs p type_name \<noteq> None then union_defs p type_name
            else struct_defs p type_name) of
        None \<Rightarrow> Inr r
      | Some members \<Rightarrow>
          (let header =
                 (if take sizeof_string type_name = kAnonymousTypePrefix
                  then (if is_union then ''union '' else ''struct '') @ ''{'' @ endl
                  else (if is_union then ''union '' else ''struct '') @ type_name @ '' {'' @ endl);
               r1 = r\<lparr>out_stream := out_stream r @ header\<rparr>
           in case PrintMemberData n p (data_ptr r1) members (indent + 1) is_union r1 of
                Inl e \<Rightarrow> Inl e
              | Inr r2 \<Rightarrow> Inr (r2\<lparr>out_stream := out_stream r2 @ FORMAT_OUTPUT indent @ ''}'' @ endl\<rparr>)))"
| "PrintMemberData n p union_addr [] indent is_union r = Inr r"
| "PrintMemberData n p union_addr (var_decl # members) indent is_union r =
     (case
        (if \<not> is_union \<and> var_name var_decl = kPaddingFieldName then
           Inr (r\<lparr>data_ptr := data_ptr r + var_size var_decl\<rparr>)
         else
           (let r1 = (if is_union then r\<lparr>data_ptr := union_addr\<rparr> else r) in
            if array_size var_decl \<noteq> 0 then
              (let r2 = r1\<lparr>out_stream := out_stream r1 @ FORMAT_OUTPUT indent @ var_name var_decl
                                         @ '' = ['' @ endl\<rparr>
               in case PrintArrayElements n p var_decl (indent + 1) [0..<array_size var_decl] r2 of
                    Inl e \<Rightarrow> Inl e
                  | Inr r3 \<Rightarrow>
                      Inr (r3\<lparr>out_stream := out_stream r3 @ FORMAT_OUTPUT (indent + 1) @ '']'' @ endl\<rparr>))
            else
              PrintVarData n p var_decl indent is_union
                (r1\<lparr>out_stream := out_stream r1 @ FORMAT_OUTPUT indent @ var_name var_decl @ '' = ''\<rparr>)))
      of
        Inl e \<Rightarrow> Inl e
      | Inr r' \<Rightarrow> PrintMemberData n p union_addr members indent is_union r')"
| "PrintArrayElements n p var_decl indent [] r = Inr r"
| "PrintArrayElements n p var_decl indent (i # is) r =
     (case PrintVarData n p var_decl indent False
             (r\<lparr>out_stream := out_stream r @ FORMAT_OUTPUT indent @ ''['' @ dec_nat i @ ''] = ''\<rparr>) of
        Inl e \<Rightarrow> Inl e
      | Inr r' \<Rightarrow> PrintArrayElements n p var_decl indent is r')"
| "PrintVarData n p var_decl indent is_union r =
     (case GetTokenType p (data_type var_decl) of
        kBasicDataType \<Rightarrow> PrintVarValue p var_decl indent is_union r
      | kStructName \<Rightarrow> PrepareTypeData n p (data_type var_decl) indent False r
      | kUnionName \<Rightarrow> PrepareTypeData n p (data_type var_decl) indent True r
      | kEnumName \<Rightarrow> PrintVarValue p var_decl indent False r
      | _ \<Rightarrow> Inr r)"
  by pat_completeness auto
termination
  by (relation "inv_image (less_than <*lex*> less_than <*lex*> less_than)
        (\<lambda>x. case x of
           Inl (Inl (n, p, t, i, u, r)) \<Rightarrow> (n, 0, 0)
         | Inl (Inr (n, p, a, ms, i, u, r)) \<Rightarrow> (n, 3, length ms)
         | Inr (Inl (n, p, v, i, is, r)) \<Rightarrow> (n, 2, length is)
         | Inr (Inr (n, p, v, i, u, r)) \<Rightarrow> (n, 1, 0))") auto

section \<open>Concrete registries and buffers\<close>

text \<open>
  The reader as \<open>ReadData\<close> leaves it for a dump file holding \<open>bytes\<close>: the position is the
  start of the buffer and nothing is printed yet.
\<close>

definition ReadData :: "string \<Rightarrow> DataReader" where
  "ReadData bytes = \<lparr>data_buffer = bytes, data_ptr = 0, out_stream = []\<rparr>"

text \<open>The enum \<open>Home\<close> of test/Employee.h, as \<open>ParseEnum\<close> stores it.\<close>

definition Home :: "(string \<times> int) list" where
  "Home = [(''Anhui'', 1), (''Beijing'', 9), (''Shanghai'', 10), (''Zhejiang'', 33)]"

text \<open>
  The registry for the header
  \<^verbatim>\<open>union U { int a; int b; };\<close>
  \<^verbatim>\<open>struct S { union U u; int x; };\<close>
  \<^verbatim>\<open>struct T { int a[2]; };\<close>
  and the enum \<open>Home\<close>: the union has size 4, both structs have size 8.
\<close>

definition decoder_registry :: TypeParser where
  "decoder_registry = Initialize\<lparr>
     struct_defs := [''S'' \<mapsto> [member ''U'' ''u'' 4, member ''int'' ''x'' 4],
                     ''T'' \<mapsto> [\<lparr>data_type = ''int'', var_name = ''a'', array_size = 2,
                                  is_pointer = False, var_size = 8\<rparr>]],
     union_defs := [''U'' \<mapsto> [member ''int'' ''a'' 4, member ''int'' ''b'' 4]],
     enum_defs := [''Home'' \<mapsto> Home],
     type_sizes := (type_sizes Initialize)
        (''S'' \<mapsto> 8, ''T'' \<mapsto> 8, ''U'' \<mapsto> 4, ''Home'' \<mapsto> 4)\<rparr>"

text \<open>
  The registry after a header that defines an enum under the name \<open>char\<close>,
  \<^verbatim>\<open>typedef enum {\<close>
  \<^verbatim>\<open>    A\<close>
  \<^verbatim>\<open>} char;\<close>
  for which \<open>ParseEnum\<close> executes \<open>enum_defs_[token] = members\<close> and
  \<open>type_sizes_[token] = sizeof(int)\<close> with \<open>token = "char"\<close>.
\<close>

definition char_enum_registry :: TypeParser where
  "char_enum_registry = Initialize\<lparr>
     enum_defs := [''char'' \<mapsto> [(''A'', 0)]],
     type_sizes := (type_sizes Initialize)(''char'' \<mapsto> 4)\<rparr>"

section \<open>Union sizing\<close>

lemma fold_max_var_size:
  "fold (\<lambda>it sz. max sz (var_size it)) ms a = Max (insert a (var_size ` set ms))"
proof (induction ms arbitrary: a)
  case Nil
  show ?case by simp
next
  case (Cons m ms)
  have "Max (insert (max a (var_size m)) (var_size ` set ms))
      = Max (insert a (insert (var_size m) (var_size ` set ms)))"
    by (cases "set ms = {}") (simp_all add: max.assoc)
  with Cons show ?case by simp
qed

lemma ceil_to_alignment_Some:
  assumes "ceil_to_alignment x = Some r"
  shows "kAlignment dvd r \<and> x \<le> r \<and> r < x + kAlignment \<and> r < 2 ^ size_t_bits"
proof -
  from assms have r: "r = ((x + kAlignment - 1) div kAlignment) * kAlignment"
    and lt: "r < 2 ^ size_t_bits"
    by (auto simp: ceil_to_alignment_def Let_def split: if_splits)
  have "kAlignment dvd r \<and> x \<le> r \<and> r < x + kAlignment"
    unfolding r kAlignment_def by presburger
  with lt show ?thesis by simp
qed

lemma ceil_to_alignment_fits:
  assumes "x \<le> 2 ^ size_t_bits - kAlignment"
  shows "\<exists>r. ceil_to_alignment x = Some r"
proof -
  have "((x + kAlignment - 1) div kAlignment) * kAlignment < x + kAlignment"
    unfolding kAlignment_def by presburger
  moreover have "x + kAlignment \<le> 2 ^ size_t_bits"
    using assms by (simp add: size_t_bits_def kAlignment_def)
  ultimately show ?thesis
    by (simp add: ceil_to_alignment_def Let_def)
qed

text \<open>
  Claim C2, as amended. For every list of union members whose largest \<open>var_size\<close> is at
  most \<open>2^32 - 4\<close>, so that its rounding is a \<open>size_t\<close>, \<open>CalcUnionSize\<close> returns the maximum
  of the members' \<open>var_size\<close> values (0 for no members) rounded up to the next multiple of
  the alignment unit: the result is a multiple of 4, is not below the maximum and is less
  than 4 above it. \<open>StoreStructUnionDef\<close> records exactly this value as the union's size,
  beside the unchanged member list; for the empty list the value is 0.
\<close>

theorem CalcUnionSize_aligned_max:
  assumes "Max (insert 0 (var_size ` set ms)) \<le> 2 ^ size_t_bits - kAlignment"
  shows "\<exists>sz. CalcUnionSize ms = Inr sz
     \<and> kAlignment dvd sz
     \<and> Max (insert 0 (var_size ` set ms)) \<le> sz
     \<and> sz < Max (insert 0 (var_size ` set ms)) + kAlignment
     \<and> StoreStructUnionDef False n ms p =
         Inr (p\<lparr>type_sizes := (type_sizes p)(n \<mapsto> sz),
                union_defs := (union_defs p)(n \<mapsto> ms)\<rparr>, ms)
     \<and> CalcUnionSize [] = Inr 0"
proof -
  let ?M = "Max (insert 0 (var_size ` set ms))"
  have fold_eq: "fold (\<lambda>it sz. max sz (var_size it)) ms 0 = ?M"
    by (rule fold_max_var_size)
  have empty: "CalcUnionSize [] = Inr 0"
    by (simp add: CalcUnionSize_def)
  have pos: "0 < kAlignment"
    by (simp add: kAlignment_def)
  show ?thesis
  proof (cases "?M mod kAlignment = 0")
    case True
    then have "CalcUnionSize ms = Inr ?M"
      by (simp add: CalcUnionSize_def fold_eq)
    moreover have "kAlignment dvd ?M"
      using True by (simp add: dvd_eq_mod_eq_0)
    ultimately show ?thesis
      using pos empty by (simp add: StoreStructUnionDef_def)
  next
    case False
    from ceil_to_alignment_fits [OF assms] obtain r where r: "ceil_to_alignment ?M = Some r"
      by blast
    with False have "CalcUnionSize ms = Inr r"
      by (simp add: CalcUnionSize_def fold_eq)
    with ceil_to_alignment_Some [OF r] empty show ?thesis
      by (simp add: StoreStructUnionDef_def)
  qed
qed

theorem CalcUnionSize_aligned_max_witness:
  "Max (insert 0 (var_size ` set [member ''char'' ''c'' 1, member ''short'' ''s'' 2]))
     \<le> 2 ^ size_t_bits - kAlignment
   \<and> CalcUnionSize [member ''char'' ''c'' 1, member ''short'' ''s'' 2] = Inr 4
   \<and> StoreStructUnionDef False ''U'' [member ''char'' ''c'' 1, member ''short'' ''s'' 2] Initialize
       = Inr (Initialize\<lparr>type_sizes := (type_sizes Initialize)(''U'' \<mapsto> 4),
                union_defs := (union_defs Initialize)
                  (''U'' \<mapsto> [member ''char'' ''c'' 1, member ''short'' ''s'' 2])\<rparr>,
              [member ''char'' ''c'' 1, member ''short'' ''s'' 2])"
proof -
  let ?ms = "[member ''char'' ''c'' 1, member ''short'' ''s'' 2]"
  have h: "Max (insert 0 (var_size ` set ?ms)) \<le> 2 ^ size_t_bits - kAlignment"
    by (simp add: member_def size_t_bits_def kAlignment_def)
  have calc: "CalcUnionSize ?ms = Inr 4"
    by (simp add: CalcUnionSize_def member_def kAlignment_def ceil_to_alignment_def size_t_bits_def)
  from CalcUnionSize_aligned_max [OF h, of "''U''" Initialize] calc h
  show ?thesis by auto
qed

theorem CalcUnionSize_cast_counterexample:
  "CalcUnionSize [member ''foo'' ''x'' 4294967295] = Inl CastOutOfRange
   \<and> StoreStructUnionDef False ''U'' [member ''foo'' ''x'' 4294967295] Initialize
       = Inl CastOutOfRange"
  by (simp add: StoreStructUnionDef_def CalcUnionSize_def member_def kAlignment_def
        ceil_to_alignment_def size_t_bits_def)

section \<open>Struct sizing\<close>

lemma step_last_indep:
  "PadStructMembers_step tot last_size m = PadContinue out t l \<Longrightarrow>
   \<exists>t0. PadStructMembers_step 0 last_size m = PadContinue out t0 l"
  by (auto simp: PadStructMembers_step_def Let_def kAlignment_def split: if_splits option.splits;
      presburger)

lemma step_sum:
  assumes "PadStructMembers_step tot last_size m = PadContinue out t l"
    and "\<not> (var_size m mod kAlignment = 0 \<and> last_size > 0)"
  shows "(sum_list (map var_size out) + tot + last_size) mod 2 ^ size_t_bits
           = (t + l) mod 2 ^ size_t_bits"
  using assms
  by (auto simp: PadStructMembers_step_def Let_def MakePadField_def kAlignment_def size_t_add_def
        mod_simps ac_simps split: if_splits option.splits)
     (simp_all add: numeral_eq_Suc)

lemma step_last_bound:
  assumes "PadStructMembers_step tot last_size m = PadContinue out t l"
  shows "l \<le> 3"
  using assms
  by (auto simp: PadStructMembers_step_def Let_def kAlignment_def split: if_splits option.splits)

lemma size_t_add_dvd:
  assumes "kAlignment dvd a" and "kAlignment dvd b"
  shows "kAlignment dvd size_t_add a b"
proof -
  have "kAlignment dvd (2::nat) ^ size_t_bits"
    by (simp add: kAlignment_def size_t_bits_def)
  moreover have "kAlignment dvd a + b"
    using assms by simp
  ultimately show ?thesis
    by (simp add: size_t_add_def dvd_mod_iff)
qed

lemma step_dvd:
  assumes "PadStructMembers_step tot last_size m = PadContinue out t l"
    and "kAlignment dvd tot"
  shows "kAlignment dvd t"
proof -
  have four: "kAlignment dvd kAlignment" by simp
  show ?thesis
    using assms size_t_add_dvd [OF assms(2)] ceil_to_alignment_Some [of last_size]
    by (auto simp: PadStructMembers_step_def Let_def dvd_eq_mod_eq_0 [symmetric]
          split: if_splits option.splits)
qed

lemma step_lt:
  assumes "PadStructMembers_step tot last_size m = PadContinue out t l"
    and "tot < 2 ^ size_t_bits"
  shows "t < 2 ^ size_t_bits"
  using assms
  by (auto simp: PadStructMembers_step_def Let_def size_t_add_def split: if_splits option.splits)

lemma loop_sum:
  assumes "PadStructMembers_loop tot last_size ms = (PadDone, ms', t, l)"
    and "\<not> aligned_member_closes_run last_size ms"
  shows "(sum_list (map var_size ms') + tot + last_size) mod 2 ^ size_t_bits
           = (t + l) mod 2 ^ size_t_bits"
  using assms
proof (induction ms arbitrary: tot last_size ms')
  case Nil
  then show ?case by simp
next
  case (Cons m ms)
  from Cons.prems(1) obtain out t1 l1 where
    step: "PadStructMembers_step tot last_size m = PadContinue out t1 l1"
    by (auto split: pad_step.splits prod.splits)
  with Cons.prems(1) obtain rest where
    rest: "PadStructMembers_loop t1 l1 ms = (PadDone, rest, t, l)" and ms': "ms' = out @ rest"
    by (auto split: prod.splits)
  from step obtain t0 where "PadStructMembers_step 0 last_size m = PadContinue out t0 l1"
    using step_last_indep by blast
  with Cons.prems(2) have na: "\<not> (var_size m mod kAlignment = 0 \<and> last_size > 0)"
    and nc: "\<not> aligned_member_closes_run l1 ms"
    by auto
  have one: "(sum_list (map var_size out) + tot + last_size) mod 2 ^ size_t_bits
           = (t1 + l1) mod 2 ^ size_t_bits"
    by (rule step_sum [OF step na])
  have "(sum_list (map var_size ms') + tot + last_size) mod 2 ^ size_t_bits
      = (sum_list (map var_size rest) + (sum_list (map var_size out) + tot + last_size)) mod 2 ^ size_t_bits"
    by (simp add: ms' ac_simps)
  also have "\<dots> = (sum_list (map var_size rest) + (t1 + l1)) mod 2 ^ size_t_bits"
    using one by (rule mod_add_cong [OF refl])
  also have "\<dots> = (t + l) mod 2 ^ size_t_bits"
    using Cons.IH [OF rest nc] by (simp add: ac_simps)
  finally show ?case .
qed

lemma loop_invariants:
  assumes "PadStructMembers_loop tot last_size ms = (e, ms', t, l)"
    and "kAlignment dvd tot" and "tot < 2 ^ size_t_bits" and "last_size \<le> 3"
  shows "kAlignment dvd t \<and> t < 2 ^ size_t_bits \<and> l \<le> 3"
  using assms
proof (induction ms arbitrary: tot last_size ms')
  case Nil
  then show ?case by simp
next
  case (Cons m ms)
  show ?case
  proof (cases "PadStructMembers_step tot last_size m")
    case (PadContinue out t1 l1)
    with Cons.prems(1) obtain rest where
      rest: "PadStructMembers_loop t1 l1 ms = (e, rest, t, l)"
      by (auto split: prod.splits)
    from Cons.IH [OF rest step_dvd [OF PadContinue Cons.prems(2)]
        step_lt [OF PadContinue Cons.prems(3)] step_last_bound [OF PadContinue]]
    show ?thesis .
  next
    case PadReturn0
    with Cons.prems show ?thesis by simp
  next
    case PadAssertFailed
    with Cons.prems show ?thesis by simp
  next
    case PadCastFailed
    with Cons.prems show ?thesis by simp
  qed
qed

lemma aligned_room:
  assumes "kAlignment dvd t" and "t < 2 ^ size_t_bits" and "l \<le> 3"
  shows "t + l < 2 ^ size_t_bits"
proof -
  from assms(1) obtain k where k: "t = 4 * k"
    by (auto simp: kAlignment_def)
  with assms(2) have "4 * k < 4 * 2 ^ 30"
    by (simp add: size_t_bits_def)
  then have "k < 2 ^ 30" by simp
  then have "4 * k + 4 \<le> 4 * 2 ^ 30" by simp
  with k assms(3) show ?thesis
    by (simp add: size_t_bits_def)
qed

lemmas pad_eval =
  PadStructMembers_def PadStructMembers_step_def Let_def kAlignment_def ceil_to_alignment_def
  MakePadField_def member_def size_t_add_def size_t_bits_def

text \<open>
  Claim C1, as amended. Let \<open>PadStructMembers\<close> run to the end of the member list \<open>ms\<close>
  (no \<open>return 0\<close>, no failed assertion), leaving the list \<open>ms'\<close>, the size \<open>tot\<close> and a
  pending run of \<open>last_size\<close> bytes, and let no member whose size is a multiple of 4 be
  reached while a run is pending. Then \<open>PadStructMembers\<close> returns \<open>tot\<close>,
  \<open>StoreStructUnionDef\<close> stores \<open>ms'\<close> and \<open>tot\<close> for the struct, and the sum of the
  \<open>var_size\<close> fields of \<open>ms'\<close> (padding fields included), taken as the code's \<open>size_t\<close> takes
  it, modulo \<open>2^32\<close>, is \<open>tot + last_size\<close>: it is the returned size when the list does not
  end in a pending run. The returned size is a multiple of 4.
\<close>

theorem PadStructMembers_sum_of_sizes:
  assumes "PadStructMembers_loop 0 0 ms = (PadDone, ms', tot, last_size)"
    and "\<not> aligned_member_closes_run 0 ms"
  shows "PadStructMembers ms = Inr (ms', tot)
     \<and> StoreStructUnionDef True n ms p =
         Inr (p\<lparr>type_sizes := (type_sizes p)(n \<mapsto> tot),
                struct_defs := (struct_defs p)(n \<mapsto> ms')\<rparr>, ms')
     \<and> sum_list (map var_size ms') mod 2 ^ size_t_bits = tot + last_size
     \<and> kAlignment dvd tot"
proof -
  have ret: "PadStructMembers ms = Inr (ms', tot)"
    using assms(1) by (simp add: PadStructMembers_def)
  have store: "StoreStructUnionDef True n ms p =
         Inr (p\<lparr>type_sizes := (type_sizes p)(n \<mapsto> tot),
                struct_defs := (struct_defs p)(n \<mapsto> ms')\<rparr>, ms')"
    by (simp add: StoreStructUnionDef_def ret)
  have inv: "kAlignment dvd tot \<and> tot < 2 ^ size_t_bits \<and> last_size \<le> 3"
    using loop_invariants [OF assms(1)] by simp
  then have room: "tot + last_size < 2 ^ size_t_bits"
    by (simp add: aligned_room)
  have "sum_list (map var_size ms') mod 2 ^ size_t_bits = (tot + last_size) mod 2 ^ size_t_bits"
    using loop_sum [OF assms] by simp
  with room have sum: "sum_list (map var_size ms') mod 2 ^ size_t_bits = tot + last_size"
    by simp
  from ret store sum inv show ?thesis by simp
qed

theorem PadStructMembers_sum_of_sizes_witness:
  "PadStructMembers_loop 0 0
     [member ''char'' ''a'' 1, member ''short'' ''b'' 2, member ''int'' ''c'' 4]
     = (PadDone,
        [member ''char'' ''a'' 1, MakePadField 1, member ''short'' ''b'' 2, member ''int'' ''c'' 4],
        8, 0)
   \<and> \<not> aligned_member_closes_run 0
         [member ''char'' ''a'' 1, member ''short'' ''b'' 2, member ''int'' ''c'' 4]
   \<and> StoreStructUnionDef True ''S''
         [member ''char'' ''a'' 1, member ''short'' ''b'' 2, member ''int'' ''c'' 4] Initialize
       = Inr (Initialize\<lparr>type_sizes := (type_sizes Initialize)(''S'' \<mapsto> 8),
                struct_defs := (struct_defs Initialize)
                  (''S'' \<mapsto> [member ''char'' ''a'' 1, MakePadField 1, member ''short'' ''b'' 2,
                             member ''int'' ''c'' 4])\<rparr>,
              [member ''char'' ''a'' 1, MakePadField 1, member ''short'' ''b'' 2,
               member ''int'' ''c'' 4])
   \<and> sum_list (map var_size
         [member ''char'' ''a'' 1, MakePadField 1, member ''short'' ''b'' 2, member ''int'' ''c'' 4])
       mod 2 ^ size_t_bits = 8"
proof -
  let ?ms = "[member ''char'' ''a'' 1, member ''short'' ''b'' 2, member ''int'' ''c'' 4]"
  let ?ms' = "[member ''char'' ''a'' 1, MakePadField 1, member ''short'' ''b'' 2, member ''int'' ''c'' 4]"
  have h1: "PadStructMembers_loop 0 0 ?ms = (PadDone, ?ms', 8, 0)"
    by (simp add: pad_eval)
  have h2: "\<not> aligned_member_closes_run 0 ?ms"
    by (simp add: pad_eval)
  from PadStructMembers_sum_of_sizes [OF h1 h2, of "''S''" Initialize] h1 h2
  show ?thesis by simp
qed

theorem PadStructMembers_trailing_run_counterexample:
  "StoreStructUnionDef True ''S'' [member ''int'' ''id'' 4, member ''char'' ''c'' 1] Initialize
     = Inr (Initialize\<lparr>type_sizes := (type_sizes Initialize)(''S'' \<mapsto> 4),
              struct_defs := (struct_defs Initialize)
                (''S'' \<mapsto> [member ''int'' ''id'' 4, member ''char'' ''c'' 1])\<rparr>,
            [member ''int'' ''id'' 4, member ''char'' ''c'' 1])
   \<and> PadStructMembers [member ''int'' ''id'' 4, member ''char'' ''c'' 1]
     = Inr ([member ''int'' ''id'' 4, member ''char'' ''c'' 1], 4)
   \<and> sum_list (map var_size [member ''int'' ''id'' 4, member ''char'' ''c'' 1]) = 5"
  by (simp add: StoreStructUnionDef_def pad_eval)

lemma PadStructMembers_Manager:
  "PadStructMembers [member ''char'' ''a'' 1, member ''int'' ''level'' 4]
     = Inr ([member ''char'' ''a'' 1, MakePadField 3, member ''int'' ''level'' 4], 4)
   \<and> sum_list (map var_size
         [member ''char'' ''a'' 1, MakePadField 3, member ''int'' ''level'' 4]) = 8"
  by (simp add: pad_eval)

lemma PadStructMembers_wraps:
  "PadStructMembers [member ''int'' ''x'' 4294967292, member ''int'' ''y'' 4]
     = Inr ([member ''int'' ''x'' 4294967292, member ''int'' ''y'' 4], 0)"
  by (simp add: pad_eval)

section \<open>Decoding scalar, enum and char fields\<close>



text \<open>
  \<open>PrintVarValue\<close> returns whenever the bytes it reads lie inside the buffer and are at
  least one: the result is the reader with the value line appended and the cursor moved.
\<close>

lemma PrintVarValue_returns:
  assumes "len = (if data_type v = ''char'' then 1 else var_size v)"
    and "0 < len" and "data_ptr r + len \<le> length (data_buffer r)"
  shows "\<exists>hex_value.
           tohex (take len (drop (data_ptr r) (data_buffer r))) = Some hex_value
         \<and> PrintVarValue p v indent is_union r =
             Inr (r\<lparr>out_stream := out_stream r
                      @ (setw 3 (dec_int (strtol hex_value 16)) @ '', '' @ hex_value)
                      @ (if \<not> is_union \<and> enum_defs p (data_type v) \<noteq> None then
                           '', '' @ enum_label_loop (strtol hex_value 16)
                                      (the (enum_defs p (data_type v)))
                         else if data_type v = ''char'' \<and> strtol hex_value 16 \<noteq> 0 then
                           '', '' @ [CHR 0x27] @ [char_of (strtol hex_value 16)] @ [CHR 0x27]
                         else [])
                      @ endl,
                     data_ptr := (if \<not> is_union then data_ptr r + len else data_ptr r)\<rparr>)"
proof -
  let ?data = "take len (drop (data_ptr r) (data_buffer r))"
  have "length ?data = len"
    using assms(3) by simp
  with assms(2) have "?data \<noteq> []"
    by auto
  then obtain hex_value where hex: "tohex ?data = Some hex_value"
    by (auto simp: tohex_def)
  have inb: "\<not> data_ptr r + len > length (data_buffer r)"
    using assms(3) by simp
  show ?thesis
    using hex inb assms(1)
    by (simp add: PrintVarValue_def Let_def)
qed

lemma digit_value_digit_char:
  assumes "d < 16"
  shows "digit_value (digit_char d) = Some d"
proof -
  from assms have "d = 0 \<or> d = 1 \<or> d = 2 \<or> d = 3 \<or> d = 4 \<or> d = 5 \<or> d = 6 \<or> d = 7 \<or> d = 8
      \<or> d = 9 \<or> d = 10 \<or> d = 11 \<or> d = 12 \<or> d = 13 \<or> d = 14 \<or> d = 15"
    by arith
  then show ?thesis
    by (elim disjE) (simp_all add: digit_char_def digit_value_def)
qed

text \<open>One byte through \<open>tohex\<close> and \<open>strtol\<close>: the decoded integer is the byte's value.\<close>

lemma strtol_tohex_byte:
  "tohex [c] = Some (''0x'' @ [digit_char (of_char c div 16), digit_char (of_char c mod 16)])
   \<and> strtol (''0x'' @ [digit_char (of_char c div 16), digit_char (of_char c mod 16)]) 16
       = of_char c"
proof -
  let ?n = "of_char c :: nat"
  have lt: "?n < 256" by (rule nat_of_char_less_256)
  then have d1: "?n div 16 < 16" and d2: "?n mod 16 < 16" by presburger+
  have v1: "digit_value (digit_char (?n div 16)) = Some (?n div 16)"
    and v2: "digit_value (digit_char (?n mod 16)) = Some (?n mod 16)"
    using d1 d2 by (simp_all add: digit_value_digit_char)
  have "int (?n div 16) * 16 + int (?n mod 16) = int ?n"
    by (simp add: zdiv_int zmod_int)
  moreover have "int ?n \<le> 255" using lt by linarith
  ultimately have "strtol (''0x'' @ [digit_char (?n div 16), digit_char (?n mod 16)]) 16 = int ?n"
    using d1 d2
    by (simp add: strtol_def Let_def isspace_def is_digit_in_def v1 v2 LONG_MAX_def LONG_MIN_def)
  then show ?thesis
    by (simp add: tohex_def of_nat_of_char)
qed



text \<open>
  Claim C10, as amended. \<open>PrintVarValue\<close> renders a field whose bytes lie inside the
  buffer, and either the field is printed as a union member or its type name is not
  registered as an enum: the test for an enum comes first, and nothing keeps a header
  from registering an enum under the name \<open>char\<close>. If the declared type is exactly \<open>char\<close>,
  one byte \<open>c\<close> is read and the decoded integer is its value; when it is not zero the
  value line is the decimal and the hex rendering followed by a comma, a space and \<open>c\<close>
  between single quotes, and when it is zero the line ends after the hex rendering. For
  every other type name the line ends after the hex rendering too. In each case
  \<open>PrintVarValue\<close> returns.
\<close>

theorem char_field_rendering:
  "(data_type v = ''char'' \<and> data_ptr r < length (data_buffer r)
      \<and> c = data_buffer r ! data_ptr r \<and> (is_union \<or> enum_defs p ''char'' = None)
      \<longrightarrow> PrintVarValue p v indent is_union r =
            Inr (r\<lparr>out_stream := out_stream r
                     @ setw 3 (dec_int (of_char c)) @ '', ''
                     @ ''0x'' @ [digit_char (of_char c div 16), digit_char (of_char c mod 16)]
                     @ (if of_char c \<noteq> (0::int) then '', '' @ [CHR 0x27, c, CHR 0x27] else [])
                     @ endl,
                    data_ptr := (if is_union then data_ptr r else data_ptr r + 1)\<rparr>))
   \<and> (data_type v \<noteq> ''char'' \<and> 0 < var_size v
      \<and> data_ptr r + var_size v \<le> length (data_buffer r)
      \<and> (is_union \<or> enum_defs p (data_type v) = None)
      \<longrightarrow> (\<exists>hex_value.
            tohex (take (var_size v) (drop (data_ptr r) (data_buffer r))) = Some hex_value
          \<and> PrintVarValue p v indent is_union r =
              Inr (r\<lparr>out_stream := out_stream r
                       @ setw 3 (dec_int (strtol hex_value 16)) @ '', '' @ hex_value @ endl,
                      data_ptr := (if is_union then data_ptr r else data_ptr r + var_size v)\<rparr>)))"
proof (intro conjI impI)
  assume asm: "data_type v = ''char'' \<and> data_ptr r < length (data_buffer r)
      \<and> c = data_buffer r ! data_ptr r \<and> (is_union \<or> enum_defs p ''char'' = None)"
  then have ty: "data_type v = ''char''" and inb: "data_ptr r < length (data_buffer r)"
    and c: "c = data_buffer r ! data_ptr r"
    and ne: "\<not> (\<not> is_union \<and> enum_defs p (data_type v) \<noteq> None)"
    by auto
  have len: "(1::nat) = (if data_type v = ''char'' then 1 else var_size v)"
    using ty by simp
  have "drop (data_ptr r) (data_buffer r) = c # drop (Suc (data_ptr r)) (data_buffer r)"
    using inb c by (simp add: Cons_nth_drop_Suc)
  then have data: "take 1 (drop (data_ptr r) (data_buffer r)) = [c]"
    by simp
  from PrintVarValue_returns [OF len, of r p indent is_union] inb data
  obtain hex_value where hex: "tohex [c] = Some hex_value"
    and val: "PrintVarValue p v indent is_union r =
             Inr (r\<lparr>out_stream := out_stream r
                      @ (setw 3 (dec_int (strtol hex_value 16)) @ '', '' @ hex_value)
                      @ (if \<not> is_union \<and> enum_defs p (data_type v) \<noteq> None then
                           '', '' @ enum_label_loop (strtol hex_value 16)
                                      (the (enum_defs p (data_type v)))
                         else if data_type v = ''char'' \<and> strtol hex_value 16 \<noteq> 0 then
                           '', '' @ [CHR 0x27] @ [char_of (strtol hex_value 16)] @ [CHR 0x27]
                         else [])
                      @ endl,
                     data_ptr := (if \<not> is_union then data_ptr r + 1 else data_ptr r)\<rparr>)"
    by auto
  from hex strtol_tohex_byte [of c]
  have hv: "hex_value = ''0x'' @ [digit_char (of_char c div 16), digit_char (of_char c mod 16)]"
    and iv: "strtol hex_value 16 = of_char c"
    by auto
  have iv2: "strtol [CHR ''0'', CHR ''x'', digit_char (of_char c div 16),
                     digit_char (of_char c mod 16)] 16 = of_char c"
    using strtol_tohex_byte [of c] by simp
  have ch: "char_of (of_char c :: int) = c"
    by (rule char_of_char)
  show "PrintVarValue p v indent is_union r =
            Inr (r\<lparr>out_stream := out_stream r
                     @ setw 3 (dec_int (of_char c)) @ '', ''
                     @ ''0x'' @ [digit_char (of_char c div 16), digit_char (of_char c mod 16)]
                     @ (if of_char c \<noteq> (0::int) then '', '' @ [CHR 0x27, c, CHR 0x27] else [])
                     @ endl,
                    data_ptr := (if is_union then data_ptr r else data_ptr r + 1)\<rparr>)"
  proof (cases is_union)
    case True
    then show ?thesis
      unfolding val ty by (simp add: hv iv2 ch)
  next
    case False
    with asm have "enum_defs p ''char'' = None" by simp
    with False show ?thesis
      unfolding val ty by (simp add: hv iv2 ch)
  qed
next
  assume asm: "data_type v \<noteq> ''char'' \<and> 0 < var_size v
      \<and> data_ptr r + var_size v \<le> length (data_buffer r)
      \<and> (is_union \<or> enum_defs p (data_type v) = None)"
  then have ty: "data_type v \<noteq> ''char''" and pos: "0 < var_size v"
    and inb: "data_ptr r + var_size v \<le> length (data_buffer r)"
    and ne: "\<not> (\<not> is_union \<and> enum_defs p (data_type v) \<noteq> None)"
    by auto
  have len: "var_size v = (if data_type v = ''char'' then 1 else var_size v)"
    using ty by simp
  from PrintVarValue_returns [OF len pos inb, of p indent is_union] ne ty
  show "\<exists>hex_value.
            tohex (take (var_size v) (drop (data_ptr r) (data_buffer r))) = Some hex_value
          \<and> PrintVarValue p v indent is_union r =
              Inr (r\<lparr>out_stream := out_stream r
                       @ setw 3 (dec_int (strtol hex_value 16)) @ '', '' @ hex_value @ endl,
                      data_ptr := (if is_union then data_ptr r else data_ptr r + var_size v)\<rparr>)"
    by auto
qed

theorem char_field_rendering_witness:
  "data_type (member ''char'' ''a'' 1) = ''char''
   \<and> data_ptr (ReadData ''A'') < length (data_buffer (ReadData ''A''))
   \<and> CHR ''A'' = data_buffer (ReadData ''A'') ! data_ptr (ReadData ''A'')
   \<and> enum_defs decoder_registry ''char'' = None
   \<and> PrintVarValue decoder_registry (member ''char'' ''a'' 1) 1 False (ReadData ''A'')
       = Inr \<lparr>data_buffer = ''A'', data_ptr = 1,
              out_stream = '' 65, 0x41, '' @ [CHR 0x27, CHR ''A'', CHR 0x27] @ endl\<rparr>
   \<and> data_type (member ''int'' ''x'' 4) \<noteq> ''char''
   \<and> enum_defs decoder_registry ''int'' = None
   \<and> (\<exists>hex_value.
         tohex [CHR 0x01, CHR 0x00, CHR 0x00, CHR 0x00] = Some hex_value
       \<and> PrintVarValue decoder_registry (member ''int'' ''x'' 4) 1 False
            (ReadData [CHR 0x01, CHR 0x00, CHR 0x00, CHR 0x00])
          = Inr \<lparr>data_buffer = [CHR 0x01, CHR 0x00, CHR 0x00, CHR 0x00], data_ptr = 4,
                 out_stream = setw 3 (dec_int (strtol hex_value 16)) @ '', '' @ hex_value @ endl\<rparr>)"
proof -
  let ?v = "member ''char'' ''a'' 1"
  let ?r = "ReadData ''A''"
  let ?w = "member ''int'' ''x'' 4"
  let ?s = "ReadData [CHR 0x01, CHR 0x00, CHR 0x00, CHR 0x00]"
  have ty: "data_type ?v = ''char''"
    by (simp add: member_def)
  have inb: "data_ptr ?r < length (data_buffer ?r)"
    by (simp add: ReadData_def)
  have c: "CHR ''A'' = data_buffer ?r ! data_ptr ?r"
    by (simp add: ReadData_def)
  have ne: "enum_defs decoder_registry ''char'' = None"
    by (simp add: decoder_registry_def Initialize_def)
  have ty2: "data_type ?w \<noteq> ''char''"
    by (simp add: member_def)
  have ne2: "enum_defs decoder_registry ''int'' = None"
    by (simp add: decoder_registry_def Initialize_def)
  have pos2: "0 < var_size ?w" and inb2: "data_ptr ?s + var_size ?w \<le> length (data_buffer ?s)"
    by (simp_all add: member_def ReadData_def)
  have ne2': "enum_defs decoder_registry (data_type ?w) = None"
    using ne2 by (simp add: member_def)
  have "PrintVarValue decoder_registry ?v 1 False ?r =
            Inr (?r\<lparr>out_stream := out_stream ?r
                     @ setw 3 (dec_int (of_char CHR ''A'')) @ '', ''
                     @ ''0x'' @ [digit_char (of_char CHR ''A'' div 16), digit_char (of_char CHR ''A'' mod 16)]
                     @ (if of_char CHR ''A'' \<noteq> (0::int) then '', '' @ [CHR 0x27, CHR ''A'', CHR 0x27] else [])
                     @ endl,
                    data_ptr := (if False then data_ptr ?r else data_ptr ?r + 1)\<rparr>)"
    using char_field_rendering [of ?v ?r "CHR ''A''" False decoder_registry 1] ty inb c ne
    by blast
  then have first: "PrintVarValue decoder_registry ?v 1 False ?r
       = Inr \<lparr>data_buffer = ''A'', data_ptr = 1,
              out_stream = '' 65, 0x41, '' @ [CHR 0x27, CHR ''A'', CHR 0x27] @ endl\<rparr>"
    by (simp add: ReadData_def dec_int_def dec_pos.simps digit_char_def setw_def)
  have "\<exists>hex_value.
            tohex (take (var_size ?w) (drop (data_ptr ?s) (data_buffer ?s))) = Some hex_value
          \<and> PrintVarValue decoder_registry ?w 1 False ?s =
              Inr (?s\<lparr>out_stream := out_stream ?s
                       @ setw 3 (dec_int (strtol hex_value 16)) @ '', '' @ hex_value @ endl,
                      data_ptr := (if False then data_ptr ?s else data_ptr ?s + var_size ?w)\<rparr>)"
    using char_field_rendering [of ?w ?s "CHR ''A''" False decoder_registry 1] ty2 pos2 inb2 ne2'
    by blast
  then have second: "\<exists>hex_value.
         tohex [CHR 0x01, CHR 0x00, CHR 0x00, CHR 0x00] = Some hex_value
       \<and> PrintVarValue decoder_registry ?w 1 False ?s
          = Inr \<lparr>data_buffer = [CHR 0x01, CHR 0x00, CHR 0x00, CHR 0x00], data_ptr = 4,
                 out_stream = setw 3 (dec_int (strtol hex_value 16)) @ '', '' @ hex_value @ endl\<rparr>"
    by (simp add: member_def ReadData_def)
  from ty inb c ne first ty2 ne2 second show ?thesis by blast
qed

theorem char_registered_as_enum_counterexample:
  "PrintVarValue char_enum_registry (member ''char'' ''a'' 4) 1 False
     (ReadData [CHR ''A'', CHR 0x00, CHR 0x00, CHR 0x00])
   = Inr \<lparr>data_buffer = [CHR ''A'', CHR 0x00, CHR 0x00, CHR 0x00], data_ptr = 1,
          out_stream = '' 65, 0x41, Unknown'' @ endl\<rparr>"
  by code_simp

section \<open>Decoding unions and arrays\<close>

text \<open>
  Claim C3, evaluated. The struct \<open>S\<close> holds the union \<open>U\<close> of size 4 (members \<open>a\<close> and \<open>b\<close>,
  both \<open>int\<close>) followed by the \<open>int\<close> member \<open>x\<close>. Decoding the eight bytes
  \<open>01 00 00 00 02 00 00 00\<close> reads both union members at offset 0, leaves the cursor at
  offset 0 after the union, and reads \<open>x\<close> there: \<open>x\<close> is printed as 1, the value at the
  union's own offset, not the 2 stored at offset 4, and the cursor ends at 4, not 8.
\<close>

theorem union_member_then_scalar_decode:
  "PrepareTypeData 3 decoder_registry ''S'' 0 False
     (ReadData [CHR 0x01, CHR 0x00, CHR 0x00, CHR 0x00, CHR 0x02, CHR 0x00, CHR 0x00, CHR 0x00])
   = Inr \<lparr>data_buffer =
            [CHR 0x01, CHR 0x00, CHR 0x00, CHR 0x00, CHR 0x02, CHR 0x00, CHR 0x00, CHR 0x00],
          data_ptr = 4,
          out_stream =
            ''struct S {'' @ endl
            @ ''    u = union U {'' @ endl
            @ ''        a =   1, 0x00000001'' @ endl
            @ ''        b =   1, 0x00000001'' @ endl
            @ ''    }'' @ endl
            @ ''    x =   1, 0x00000001'' @ endl
            @ '' }'' @ endl\<rparr>"
  by code_simp

text \<open>
  Claim C4, evaluated. The struct \<open>T\<close> holds the array \<open>int a[2]\<close>, a field of 8 bytes.
  Each of the two element reads takes all 8 bytes of the field and advances the cursor
  by 8: on a buffer of 16 bytes the cursor stands at 16 after the field, not at 8, and on
  a buffer of exactly the 8 bytes of the struct the second read leaves the buffer.
\<close>

theorem int_array_field_decode:
  "PrepareTypeData 3 decoder_registry ''T'' 0 False
     (ReadData [CHR 0x01, CHR 0x00, CHR 0x00, CHR 0x00, CHR 0x02, CHR 0x00, CHR 0x00, CHR 0x00,
                CHR 0x03, CHR 0x00, CHR 0x00, CHR 0x00, CHR 0x04, CHR 0x00, CHR 0x00, CHR 0x00])
   = Inr \<lparr>data_buffer =
            [CHR 0x01, CHR 0x00, CHR 0x00, CHR 0x00, CHR 0x02, CHR 0x00, CHR 0x00, CHR 0x00,
             CHR 0x03, CHR 0x00, CHR 0x00, CHR 0x00, CHR 0x04, CHR 0x00, CHR 0x00, CHR 0x00],
          data_ptr = 16,
          out_stream =
            ''struct T {'' @ endl
            @ ''    a = ['' @ endl
            @ ''        [0] = 2147483647, 0x0000000200000001'' @ endl
            @ ''        [1] = 2147483647, 0x0000000400000003'' @ endl
            @ ''        ]'' @ endl
            @ '' }'' @ endl\<rparr>
   \<and> PrepareTypeData 3 decoder_registry ''T'' 0 False
       (ReadData [CHR 0x01, CHR 0x00, CHR 0x00, CHR 0x00, CHR 0x02, CHR 0x00, CHR 0x00, CHR 0x00])
     = Inl ReadPastBuffer"
  by code_simp

section \<open>Parsing a declaration\<close>

lemma size_t_of_int_small: "0 \<le> g \<Longrightarrow> g < 2 ^ 31 \<Longrightarrow> size_t_of_int g = nat g"
  by (simp add: size_t_of_int_def size_t_bits_def)

lemma SplitLineIntoTokens_examples:
  "SplitLineIntoTokens ''int x[3];'' = [''int'', ''x'', ''['', ''3'', '']'', '';'']"
  "SplitLineIntoTokens ''int x[N];'' = [''int'', ''x'', ''['', ''N'', '']'', '';'']"
  "SplitLineIntoTokens ''Foo x;'' = [''Foo'', ''x'', '';'']"
  "SplitLineIntoTokens ''x;'' = [''x'', '';'']"
  by code_simp+

lemma IsNumericToken_examples:
  "IsNumericToken Initialize ''3'' = Some 3"
  "IsNumericToken Initialize ''N'' = None"
  "IsNumericToken Initialize ''0'' = None"
  "IsNumericToken Initialize ''1'' = Some 1"
  by code_simp+

lemma GetTypeSize_examples:
  "GetTypeSize Initialize ''int'' = 4"
  "GetTypeSize Initialize ''Foo'' = - 1"
  by (simp_all add: GetTypeSize_def Initialize_def basic_types_def kWordSize_def int_of_size_t_def)

text \<open>
  Claim C5, as amended. \<open>ParseDeclaration\<close> returns failure and leaves the output
  declaration as it was when the line does not end in the terminator. On a terminated
  line with fewer than 3 tokens it does not return: the assertion \<open>size >= 3\<close> fails. On
  a terminated line of at least 3 tokens whose first token is a type for which
  \<open>GetTypeSize\<close> gives a positive size \<open>g\<close>, and whose name token is not the last token, it
  returns failure exactly when a \<open>[\<close> follows the name and \<open>IsNumericToken\<close> rejects the
  array-size token; \<open>data_type\<close>, \<open>is_pointer\<close> and \<open>var_name\<close> of the output are then
  already overwritten. In every other such case it succeeds and fills the descriptor:
  \<open>array_size\<close> is the number (0 without brackets) and \<open>var_size\<close> is \<open>g\<close> (4 for a pointer)
  times the number, in \<open>size_t\<close> arithmetic.
\<close>

theorem ParseDeclaration_outcomes:
  "(line \<noteq> [] \<and> last line \<noteq> kSemicolon \<longrightarrow> ParseDeclaration p line decl = Inr (False, decl))
   \<and> (line \<noteq> [] \<and> last line = kSemicolon \<and> length (SplitLineIntoTokens line) < 3
        \<longrightarrow> ParseDeclaration p line decl = Inl AssertFailed)
   \<and> (line \<noteq> [] \<and> last line = kSemicolon \<and> SplitLineIntoTokens line = tokens
        \<and> 3 \<le> length tokens \<and> GetTypeSize p (tokens ! 0) = g \<and> 0 < g \<and> g < 2 ^ 31
        \<and> index = (if hd (tokens ! 1) = kAsterisk then 2 else 1) \<and> index + 1 < length tokens
        \<longrightarrow> ParseDeclaration p line decl =
             (if hd (tokens ! (index + 1)) = CHR ''['' then
                (if index + 2 < length tokens then
                   (case IsNumericToken p (tokens ! (index + 2)) of
                      None \<Rightarrow>
                        Inr (False, decl\<lparr>data_type := tokens ! 0, is_pointer := (index = 2),
                                         var_name := tokens ! index\<rparr>)
                    | Some number \<Rightarrow>
                        Inr (True, \<lparr>data_type = tokens ! 0, var_name = tokens ! index,
                                    array_size = size_t_of_int number, is_pointer = (index = 2),
                                    var_size = size_t_of_int
                                      (int (if index = 2 then kWordSize else nat g)
                                       * int (size_t_of_int number))\<rparr>))
                 else Inl IndexOutOfRange)
              else
                Inr (True, \<lparr>data_type = tokens ! 0, var_name = tokens ! index, array_size = 0,
                            is_pointer = (index = 2),
                            var_size = (if index = 2 then kWordSize else nat g)\<rparr>)))"
proof (intro conjI impI)
  assume "line \<noteq> [] \<and> last line \<noteq> kSemicolon"
  then show "ParseDeclaration p line decl = Inr (False, decl)"
    by (simp add: ParseDeclaration_def)
next
  assume "line \<noteq> [] \<and> last line = kSemicolon \<and> length (SplitLineIntoTokens line) < 3"
  then show "ParseDeclaration p line decl = Inl AssertFailed"
    by (simp add: ParseDeclaration_def Let_def)
next
  assume asm: "line \<noteq> [] \<and> last line = kSemicolon \<and> SplitLineIntoTokens line = tokens
        \<and> 3 \<le> length tokens \<and> GetTypeSize p (tokens ! 0) = g \<and> 0 < g \<and> g < 2 ^ 31
        \<and> index = (if hd (tokens ! 1) = kAsterisk then 2 else 1) \<and> index + 1 < length tokens"
  then have sz: "size_t_of_int (GetTypeSize p (tokens ! 0)) = nat g" and pos: "0 < nat g"
    by (simp_all add: size_t_of_int_small)
  show "ParseDeclaration p line decl =
             (if hd (tokens ! (index + 1)) = CHR ''['' then
                (if index + 2 < length tokens then
                   (case IsNumericToken p (tokens ! (index + 2)) of
                      None \<Rightarrow>
                        Inr (False, decl\<lparr>data_type := tokens ! 0, is_pointer := (index = 2),
                                         var_name := tokens ! index\<rparr>)
                    | Some number \<Rightarrow>
                        Inr (True, \<lparr>data_type = tokens ! 0, var_name = tokens ! index,
                                    array_size = size_t_of_int number, is_pointer = (index = 2),
                                    var_size = size_t_of_int
                                      (int (if index = 2 then kWordSize else nat g)
                                       * int (size_t_of_int number))\<rparr>))
                 else Inl IndexOutOfRange)
              else
                Inr (True, \<lparr>data_type = tokens ! 0, var_name = tokens ! index, array_size = 0,
                            is_pointer = (index = 2),
                            var_size = (if index = 2 then kWordSize else nat g)\<rparr>))"
  proof (cases "hd (tokens ! 1) = kAsterisk")
    case True
    with asm sz pos show ?thesis
      by (simp add: ParseDeclaration_def Let_def split: option.splits)
  next
    case False
    with asm sz pos show ?thesis
      by (simp add: ParseDeclaration_def Let_def split: option.splits)
  qed
qed

theorem ParseDeclaration_outcomes_witness:
  "''int x'' \<noteq> [] \<and> last ''int x'' \<noteq> kSemicolon
   \<and> ParseDeclaration Initialize ''int x'' (member ''char'' ''c'' 1)
       = Inr (False, member ''char'' ''c'' 1)
   \<and> ''x;'' \<noteq> [] \<and> last ''x;'' = kSemicolon \<and> length (SplitLineIntoTokens ''x;'') < 3
   \<and> ParseDeclaration Initialize ''x;'' (member ''char'' ''c'' 1) = Inl AssertFailed
   \<and> ''int x[3];'' \<noteq> [] \<and> last ''int x[3];'' = kSemicolon
   \<and> SplitLineIntoTokens ''int x[3];'' = [''int'', ''x'', ''['', ''3'', '']'', '';'']
   \<and> GetTypeSize Initialize ''int'' = 4
   \<and> ParseDeclaration Initialize ''int x[3];'' (member ''char'' ''c'' 1)
       = Inr (True, \<lparr>data_type = ''int'', var_name = ''x'', array_size = 3,
                      is_pointer = False, var_size = 12\<rparr>)"
proof -
  let ?d = "member ''char'' ''c'' 1"
  let ?tokens = "[''int'', ''x'', ''['', ''3'', '']'', '';'']"
  have a1: "''int x'' \<noteq> [] \<and> last ''int x'' \<noteq> kSemicolon"
    by (simp add: kSemicolon_def)
  have r1: "ParseDeclaration Initialize ''int x'' ?d = Inr (False, ?d)"
    using ParseDeclaration_outcomes [of "''int x''" Initialize ?d] a1 by blast
  have a2: "''x;'' \<noteq> [] \<and> last ''x;'' = kSemicolon \<and> length (SplitLineIntoTokens ''x;'') < 3"
    by (simp add: kSemicolon_def SplitLineIntoTokens_examples)
  have r2: "ParseDeclaration Initialize ''x;'' ?d = Inl AssertFailed"
    using ParseDeclaration_outcomes [of "''x;''" Initialize ?d] a2 by blast
  have a3: "''int x[3];'' \<noteq> [] \<and> last ''int x[3];'' = kSemicolon
        \<and> SplitLineIntoTokens ''int x[3];'' = ?tokens
        \<and> 3 \<le> length ?tokens \<and> GetTypeSize Initialize (?tokens ! 0) = 4 \<and> (0::int) < 4
        \<and> (4::int) < 2 ^ 31
        \<and> (1::nat) = (if hd (?tokens ! 1) = kAsterisk then 2 else 1) \<and> (1::nat) + 1 < length ?tokens"
    by (simp add: kSemicolon_def kAsterisk_def SplitLineIntoTokens_examples GetTypeSize_examples)
  have "ParseDeclaration Initialize ''int x[3];'' ?d =
             (if hd (?tokens ! (1 + 1)) = CHR ''['' then
                (if 1 + 2 < length ?tokens then
                   (case IsNumericToken Initialize (?tokens ! (1 + 2)) of
                      None \<Rightarrow>
                        Inr (False, ?d\<lparr>data_type := ?tokens ! 0, is_pointer := ((1::nat) = 2),
                                         var_name := ?tokens ! 1\<rparr>)
                    | Some number \<Rightarrow>
                        Inr (True, \<lparr>data_type = ?tokens ! 0, var_name = ?tokens ! 1,
                                    array_size = size_t_of_int number, is_pointer = ((1::nat) = 2),
                                    var_size = size_t_of_int
                                      (int (if (1::nat) = 2 then kWordSize else nat 4)
                                       * int (size_t_of_int number))\<rparr>))
                 else Inl IndexOutOfRange)
              else
                Inr (True, \<lparr>data_type = ?tokens ! 0, var_name = ?tokens ! 1, array_size = 0,
                            is_pointer = ((1::nat) = 2),
                            var_size = (if (1::nat) = 2 then kWordSize else nat 4)\<rparr>))"
    using ParseDeclaration_outcomes [of "''int x[3];''" Initialize ?d ?tokens 4 1] a3 by blast
  then have r3: "ParseDeclaration Initialize ''int x[3];'' ?d
       = Inr (True, \<lparr>data_type = ''int'', var_name = ''x'', array_size = 3,
                      is_pointer = False, var_size = 12\<rparr>)"
    by (simp add: IsNumericToken_examples size_t_of_int_def size_t_bits_def)
  have g: "GetTypeSize Initialize ''int'' = 4"
    by (rule GetTypeSize_examples)
  from a1 r1 a2 r2 a3 r3 g show ?thesis
    by blast
qed

theorem ParseDeclaration_partial_commit_counterexample:
  "ParseDeclaration Initialize ''int x[N];''
     \<lparr>data_type = ''char'', var_name = ''c'', array_size = 0, is_pointer = True, var_size = 1\<rparr>
   = Inr (False, \<lparr>data_type = ''int'', var_name = ''x'', array_size = 0,
                   is_pointer = False, var_size = 1\<rparr>)"
  by (simp add: ParseDeclaration_def Let_def SplitLineIntoTokens_examples kSemicolon_def
        kAsterisk_def GetTypeSize_examples IsNumericToken_examples size_t_of_int_def size_t_bits_def)

text \<open>
  The slip that the amended claim leaves out: for an unregistered type \<open>GetTypeSize\<close>
  returns -1, which \<open>size_t length\<close> holds as \<open>SIZE_MAX\<close>, so the test \<open>0 == length\<close> does
  not reject it and the declaration is accepted with that size.
\<close>

lemma ParseDeclaration_unknown_type:
  "ParseDeclaration Initialize ''Foo x;'' (member ''char'' ''c'' 1)
     = Inr (True, \<lparr>data_type = ''Foo'', var_name = ''x'', array_size = 0,
                    is_pointer = False, var_size = 4294967295\<rparr>)"
  by (simp add: ParseDeclaration_def Let_def SplitLineIntoTokens_examples kSemicolon_def
        kAsterisk_def GetTypeSize_examples size_t_of_int_def size_t_bits_def member_def)

section \<open>Preprocessor constants\<close>

lemma GetNextToken_define_ZERO:
  "GetNextToken ''#define ZERO 0$'' 1 True = (True, 7, ''define'')"
  "GetNextToken ''#define ZERO 0$'' 7 False = (True, 12, ''ZERO'')"
  "GetNextToken ''#define ZERO 0$'' 12 False = (True, 14, ''0'')"
  "SkipCurrentLine ''#define ZERO 0$'' 14 = 15"
  by code_simp+

lemma GetNextToken_define_ONE:
  "GetNextToken ''#define ONE 1$'' 1 True = (True, 7, ''define'')"
  "GetNextToken ''#define ONE 1$'' 7 False = (True, 11, ''ONE'')"
  "GetNextToken ''#define ONE 1$'' 11 False = (True, 13, ''1'')"
  by code_simp+

text \<open>
  Claim C8, evaluated. The line \<open>#define ZERO 0\<close> is skipped: \<open>IsNumericToken\<close> takes the
  value 0 that \<open>strtol\<close> returns for the literal \<open>0\<close> as "no conversion", \<open>0\<close> is not the name
  of a recorded constant, and the constant map stays as it was. The line \<open>#define ONE 1\<close>
  records \<open>ONE\<close> with the value 1.
\<close>

theorem define_zero_not_recorded:
  "ParsePreProcDirective parse_file ''#define ZERO 0$'' 1 Initialize = Inr (15, Initialize)
   \<and> ParsePreProcDirective parse_file ''#define ONE 1$'' 1 Initialize
       = Inr (13, Initialize\<lparr>const_defs := [''ONE'' \<mapsto> 1]\<rparr>)"
proof -
  have none: "const_defs Initialize = Map.empty"
    by (simp add: Initialize_def)
  have zero: "ParsePreProcDirective parse_file ''#define ZERO 0$'' 1 Initialize
      = Inr (15, Initialize)"
    by (simp add: ParsePreProcDirective_def GetNextToken_define_ZERO IsNumericToken_examples
          del: One_nat_def)
  have one: "ParsePreProcDirective parse_file ''#define ONE 1$'' 1 Initialize
      = Inr (13, Initialize\<lparr>const_defs := [''ONE'' \<mapsto> 1]\<rparr>)"
    by (simp add: ParsePreProcDirective_def GetNextToken_define_ONE IsNumericToken_examples
          map_insert_def none del: One_nat_def)
  from zero one show ?thesis by simp
qed

section \<open>Enum values\<close>














text \<open>
  An explicit value 0 is not accepted: \<open>IsNumericToken\<close> rejects the literal \<open>0\<close>, and
  \<open>ParseEnum\<close> returns false on the body \<open>A = 0, B\<close>.
\<close>

lemma ParseEnum_explicit_zero:
  "(case ParseEnum [] Initialize True ''typedef enum${$A = 0,$B$} E;$'' 12 (MakePadField 0) False of
      Inl e \<Rightarrow> False
    | Inr (ok, p', rest) \<Rightarrow> \<not> ok \<and> enum_defs p' ''E'' = None)"
  by code_simp

text \<open>
  A header may register an enum under the name \<open>char\<close>: the registry is then
  \<open>char_enum_registry\<close>.
\<close>

lemma ParseEnum_registers_char:
  "(case ParseEnum [] Initialize True ''typedef enum {$A$} char;$'' 12 (MakePadField 0) False of
      Inl e \<Rightarrow> False
    | Inr (ok, p', rest) \<Rightarrow>
        ok \<and> enum_defs p' ''char'' = enum_defs char_enum_registry ''char''
           \<and> type_sizes p' ''char'' = type_sizes char_enum_registry ''char'')"
  by code_simp

end
